theory Spec2Isabelle
  imports Complex_Main "HOL-Library.AList"
begin

section \<open>Values, errors and strings\<close>

text \<open>
  A cell of a pandas table. \<open>Num\<close> is a number, the value that an int64 or float64 column
  holds, read as the exact rational it stands for; \<open>NA\<close> is any missing value (NaN, None,
  NaT, the nullable-integer NA); \<open>Txt\<close> is text (in a column that the code reads as numbers,
  text that is not the spelling of a number); \<open>Date y m d\<close> is a timestamp at midnight of a
  calendar day. Strings are ASCII; \<open>astype(str)\<close> turns a missing value into the text
  \<open>nan\<close>.
\<close>

datatype cell = Num rat | NA | Txt string | Date int int int

datatype error = KeyError | ValueError | TypeError

definition isna :: "cell \<Rightarrow> bool" where
  "isna c = (c = NA)"

text \<open>Python's \<open>str.isspace\<close> on the code points below 128.\<close>

definition is_space :: "char \<Rightarrow> bool" where
  "is_space c = (let n = of_char c :: nat in (9 \<le> n \<and> n \<le> 13) \<or> (28 \<le> n \<and> n \<le> 32))"

definition is_digit :: "char \<Rightarrow> bool" where
  "is_digit c = (let n = of_char c :: nat in 48 \<le> n \<and> n \<le> 57)"

definition strip :: "string \<Rightarrow> string" where
  "strip s = rev (dropWhile is_space (rev (dropWhile is_space s)))"

definition upper_char :: "char \<Rightarrow> char" where
  "upper_char c = (let n = of_char c :: nat in if 97 \<le> n \<and> n \<le> 122 then char_of (n - 32) else c)"

definition upper :: "string \<Rightarrow> string" where
  "upper s = map upper_char s"

section \<open>parse_mdY\<close>

definition int_of_digits :: "string \<Rightarrow> int" where
  "int_of_digits ds = foldl (\<lambda>a c. 10 * a + (int (of_char c) - 48)) 0 ds"

text \<open>
  \<open>re.match(r"\s*(\d{1,2})/(\d{1,2})/(\d{2,4})\s*$", str(s))\<close>: the three groups when the
  pattern matches. Each repetition is followed by a character outside its class, so the
  greedy match is the only one.
\<close>

definition re_match_mdY :: "string \<Rightarrow> (string \<times> string \<times> string) option" where
  "re_match_mdY s =
     (let s1 = dropWhile is_space s;
          g1 = takeWhile is_digit s1; r1 = dropWhile is_digit s1
      in if length g1 < 1 \<or> 2 < length g1 then None
         else (case r1 of
                 [] \<Rightarrow> None
               | c1 # s2 \<Rightarrow>
                   if c1 \<noteq> CHR ''/'' then None
                   else (let g2 = takeWhile is_digit s2; r2 = dropWhile is_digit s2
                         in if length g2 < 1 \<or> 2 < length g2 then None
                            else (case r2 of
                                    [] \<Rightarrow> None
                                  | c2 # s3 \<Rightarrow>
                                      if c2 \<noteq> CHR ''/'' then None
                                      else (let g3 = takeWhile is_digit s3;
                                                r3 = dropWhile is_digit s3
                                            in if length g3 < 2 \<or> 4 < length g3 then None
                                               else if list_all is_space r3
                                               then Some (g1, g2, g3) else None)))))"

definition leap_year :: "int \<Rightarrow> bool" where
  "leap_year y = (y mod 4 = 0 \<and> (y mod 100 \<noteq> 0 \<or> y mod 400 = 0))"

definition days_in_month :: "int \<Rightarrow> int \<Rightarrow> int" where
  "days_in_month y m =
     (if m = 2 then (if leap_year y then 29 else 28)
      else if m = 4 \<or> m = 6 \<or> m = 9 \<or> m = 11 then 30 else 31)"

definition valid_date :: "int \<Rightarrow> int \<Rightarrow> int \<Rightarrow> bool" where
  "valid_date y m d = (1 \<le> m \<and> m \<le> 12 \<and> 1 \<le> d \<and> d \<le> days_in_month y m)"

text \<open>
  \<open>pd.Timestamp(year=, month=, day=)\<close> raises unless the three numbers are a calendar
  date that the timestamp type can hold. The range of dates it can hold belongs to the
  pandas release, so it is the parameter \<open>in_range\<close>.
\<close>

definition Timestamp ::
  "(int \<Rightarrow> int \<Rightarrow> int \<Rightarrow> bool) \<Rightarrow> int \<Rightarrow> int \<Rightarrow> int \<Rightarrow> error + cell" where
  "Timestamp in_range y m d =
     (if valid_date y m d \<and> in_range y m d then Inr (Date y m d) else Inl ValueError)"

text \<open>The days a nanosecond timestamp holds at midnight: 22 September 1677 to 11 April 2262.\<close>

definition ns_range :: "int \<Rightarrow> int \<Rightarrow> int \<Rightarrow> bool" where
  "ns_range y m d =
     ((1677 < y \<or> (y = 1677 \<and> (9 < m \<or> (m = 9 \<and> 22 \<le> d)))) \<and>
      (y < 2262 \<or> (y = 2262 \<and> (m < 4 \<or> (m = 4 \<and> d \<le> 11)))))"

definition resolve_year :: "int \<Rightarrow> int \<Rightarrow> int" where
  "resolve_year pivot yy = (if yy < 100 then (if yy < pivot then 2000 + yy else 1900 + yy) else yy)"

text \<open>
  \<open>str(s)\<close> of a number or of a timestamp holds no text of the form the pattern wants
  (no two slashes), so only \<open>Txt\<close> can match.
\<close>

definition parse_mdY :: "(int \<Rightarrow> int \<Rightarrow> int \<Rightarrow> bool) \<Rightarrow> cell \<Rightarrow> int \<Rightarrow> cell" where
  "parse_mdY in_range s pivot =
     (case s of
        NA \<Rightarrow> NA
      | Num _ \<Rightarrow> NA
      | Date _ _ _ \<Rightarrow> NA
      | Txt t \<Rightarrow>
          (case re_match_mdY t of
             None \<Rightarrow> NA
           | Some (g1, g2, g3) \<Rightarrow>
               (let mm = int_of_digits g1; dd = int_of_digits g2;
                    yy = resolve_year pivot (int_of_digits g3)
                in case Timestamp in_range yy mm dd of
                     Inr t \<Rightarrow> t
                   | Inl _ \<Rightarrow> NA)))"

section \<open>safe_int_cast\<close>

text \<open>\<open>pd.to_numeric(..., errors="coerce")\<close>: what is not a number becomes missing.\<close>

definition to_numeric :: "cell \<Rightarrow> cell" where
  "to_numeric c = (case c of Num r \<Rightarrow> Num r | _ \<Rightarrow> NA)"

definition fillna :: "cell \<Rightarrow> cell \<Rightarrow> cell" where
  "fillna v c = (if isna c then v else c)"

text \<open>
  Conversion of a float to \<open>int\<close> cuts the fraction off, towards zero. The integer columns
  of the code are int64 and its numeric columns with a missing entry are float64: the
  arithmetic below is the exact one, which is theirs as long as every number involved is
  below \<open>2^53\<close> in absolute value (\<open>exact_number\<close>, \<open>exact_sentinel\<close>). Past that bound
  float64 rounds whole numbers and, from \<open>2^63\<close> on, the cast of the code to int64 no longer
  gives the integer part; the statements about ids are made for numbers within the bound.
\<close>

definition trunc :: "rat \<Rightarrow> int" where
  "trunc r = (if 0 \<le> r then \<lfloor>r\<rfloor> else \<lceil>r\<rceil>)"

definition exact_number :: "cell \<Rightarrow> bool" where
  "exact_number c = (case c of Num r \<Rightarrow> \<bar>r\<bar> < 2 ^ 53 | _ \<Rightarrow> True)"

definition exact_sentinel :: "int \<Rightarrow> bool" where
  "exact_sentinel v = (\<bar>v\<bar> \<le> 2 ^ 53)"

text \<open>A cell that holds a whole number of absolute value at most \<open>2^53\<close>.\<close>

definition exact_int :: "cell \<Rightarrow> bool" where
  "exact_int c = (case c of Num r \<Rightarrow> of_int (trunc r) = r \<and> \<bar>r\<bar> \<le> 2 ^ 53 | _ \<Rightarrow> False)"

definition fractional :: "cell \<Rightarrow> bool" where
  "fractional c = (case c of Num r \<Rightarrow> of_int \<lfloor>r\<rfloor> \<noteq> r | _ \<Rightarrow> False)"

definition outside_int64 :: "cell \<Rightarrow> bool" where
  "outside_int64 c = (case c of Num r \<Rightarrow> r < - (2 ^ 63) \<or> 2 ^ 63 \<le> r | _ \<Rightarrow> False)"

text \<open>\<open>.astype(int)\<close> on a numeric series raises on a missing entry.\<close>

fun astype_int :: "cell list \<Rightarrow> error + int list" where
  "astype_int [] = Inr []"
| "astype_int (Num r # cs) =
     (case astype_int cs of Inl e \<Rightarrow> Inl e | Inr xs \<Rightarrow> Inr (trunc r # xs))"
| "astype_int (_ # cs) = Inl ValueError"

text \<open>
  \<open>.astype("Int64")\<close> on a float series keeps missing entries and raises TypeError on a
  number that is not an int64: one with a fraction, or a whole number outside the range.
\<close>

definition astype_Int64 :: "cell list \<Rightarrow> error + cell list" where
  "astype_Int64 s =
     (if list_ex (\<lambda>c. fractional c \<or> outside_int64 c) s then Inl TypeError else Inr s)"

definition safe_int_cast :: "cell list \<Rightarrow> int option \<Rightarrow> error + int list" where
  "safe_int_cast series fill_value =
     (let s = map to_numeric series;
          s = (case fill_value of None \<Rightarrow> s | Some v \<Rightarrow> map (fillna (Num (of_int v))) s)
      in if list_ex isna s then
           (case astype_Int64 s of
              Inl e \<Rightarrow> Inl e
            | Inr s \<Rightarrow>
                if \<not> list_ex isna s then astype_int s
                else astype_int (map (fillna (Num 0)) s))
         else astype_int s)"


text \<open>What the cast leaves in the place of one cell: the number cut to an integer, or \<open>v\<close>.\<close>

definition int_entry :: "int \<Rightarrow> cell \<Rightarrow> int" where
  "int_entry v c = (case to_numeric c of Num r \<Rightarrow> trunc r | _ \<Rightarrow> v)"


type_synonym row = "(string \<times> cell) list"

record frame =
  columns :: "string list"
  rows :: "row list"

definition get :: "row \<Rightarrow> string \<Rightarrow> cell" where
  "get r c = (case map_of r c of Some v \<Rightarrow> v | None \<Rightarrow> NA)"

definition put :: "string \<Rightarrow> cell \<Rightarrow> row \<Rightarrow> row" where
  "put c v r = AList.update c v r"

definition has_col :: "frame \<Rightarrow> string \<Rightarrow> bool" where
  "has_col f c = (c \<in> set (columns f))"

definition add_col :: "string \<Rightarrow> string list \<Rightarrow> string list" where
  "add_col c cs = (if c \<in> set cs then cs else cs @ [c])"

definition assign :: "string \<Rightarrow> (row \<Rightarrow> cell) \<Rightarrow> frame \<Rightarrow> frame" where
  "assign c v f = \<lparr>columns = add_col c (columns f), rows = map (\<lambda>r. put c (v r) r) (rows f)\<rparr>"

definition select_rows :: "(row \<Rightarrow> bool) \<Rightarrow> frame \<Rightarrow> frame" where
  "select_rows p f = f\<lparr>rows := filter p (rows f)\<rparr>"

fun drop_dups :: "('a \<Rightarrow> 'k) \<Rightarrow> 'k list \<Rightarrow> 'a list \<Rightarrow> 'a list" where
  "drop_dups key seen [] = []"
| "drop_dups key seen (x # xs) =
     (if key x \<in> set seen then drop_dups key seen xs
      else x # drop_dups key (key x # seen) xs)"

definition drop_duplicates :: "string list \<Rightarrow> frame \<Rightarrow> frame" where
  "drop_duplicates keys f = f\<lparr>rows := drop_dups (\<lambda>r. map (get r) keys) [] (rows f)\<rparr>"

definition astype_str :: "(cell \<Rightarrow> string) \<Rightarrow> cell \<Rightarrow> string" where
  "astype_str py_str c = (case c of Txt s \<Rightarrow> s | NA \<Rightarrow> ''nan'' | _ \<Rightarrow> py_str c)"

definition to_numeric_raise :: "cell list \<Rightarrow> error + cell list" where
  "to_numeric_raise s =
     (if list_ex (\<lambda>c. case c of Txt _ \<Rightarrow> True | _ \<Rightarrow> False) s then Inl ValueError
      else if list_ex (\<lambda>c. case c of Date _ _ _ \<Rightarrow> True | _ \<Rightarrow> False) s then Inl TypeError
      else Inr s)"

definition py_int :: "cell \<Rightarrow> error + int" where
  "py_int c = (case c of Num r \<Rightarrow> Inr (trunc r) | _ \<Rightarrow> Inl ValueError)"

fun max_numeric :: "cell list \<Rightarrow> cell" where
  "max_numeric [] = NA"
| "max_numeric (Num r # cs) = (case max_numeric cs of Num q \<Rightarrow> Num (max r q) | _ \<Rightarrow> Num r)"
| "max_numeric (_ # cs) = max_numeric cs"

definition col :: "frame \<Rightarrow> string \<Rightarrow> cell list" where
  "col f c = map (\<lambda>r. get r c) (rows f)"

definition set_col :: "string \<Rightarrow> cell list \<Rightarrow> frame \<Rightarrow> frame" where
  "set_col c vs f = \<lparr>columns = add_col c (columns f), rows = map2 (\<lambda>r v. put c v r) (rows f) vs\<rparr>"

definition mask_empty :: "string \<Rightarrow> row \<Rightarrow> bool" where
  "mask_empty lab r =
     (isna (get r ''id'') \<and>
      (case get r lab of
         Txt t \<Rightarrow> strip (if t = ''NAN'' then '''' else t) = ''''
       | _ \<Rightarrow> False))"

definition other_row :: "string \<Rightarrow> string list \<Rightarrow> int \<Rightarrow> row" where
  "other_row lab cs i =
     map (\<lambda>c. (c, if c = ''id'' then Num (of_int i) else if c = lab then Txt ''OTHER'' else NA)) cs"

definition is_other :: "string \<Rightarrow> row \<Rightarrow> bool" where
  "is_other lab r = (get r lab = Txt ''OTHER'')"

definition ensure_other :: "string \<Rightarrow> frame \<Rightarrow> error + frame \<times> int" where
  "ensure_other lab f =
     (if list_ex (is_other lab) (rows f) then
        (case to_numeric_raise (map (\<lambda>r. get r ''id'') (filter (is_other lab) (rows f))) of
           Inl e \<Rightarrow> Inl e
         | Inr ids \<Rightarrow>
             (case ids of
                [] \<Rightarrow> Inl ValueError
              | c # _ \<Rightarrow> (case py_int c of Inl e \<Rightarrow> Inl e | Inr i \<Rightarrow> Inr (f, i))))
      else
        (let max_id = (case max_numeric (map to_numeric (col f ''id'')) of
                         Num r \<Rightarrow> trunc r | _ \<Rightarrow> 0);
             other_id = max_id + 1
         in Inr (f\<lparr>rows := rows f @ [other_row lab (columns f) other_id]\<rparr>, other_id)))"

definition prepare_dimension :: "string \<Rightarrow> (cell \<Rightarrow> string) \<Rightarrow> frame \<Rightarrow> error + frame \<times> int" where
  "prepare_dimension lab py_str f =
     (if \<not> has_col f lab \<or> \<not> has_col f ''id'' then Inl KeyError
      else
        (let f1 = assign lab (\<lambda>r. Txt (upper (strip (astype_str py_str (get r lab))))) f;
             f2 = select_rows (\<lambda>r. \<not> mask_empty lab r) f1;
             f3 = drop_duplicates [''id'', lab] f2
         in case ensure_other lab f3 of
              Inl e \<Rightarrow> Inl e
            | Inr (f4, other_id) \<Rightarrow>
                (case safe_int_cast (map to_numeric (col f4 ''id'')) (Some other_id) of
                   Inl e \<Rightarrow> Inl e
                 | Inr ids \<Rightarrow> Inr (set_col ''id'' (map (\<lambda>i. Num (of_int i)) ids) f4, other_id))))"

definition prepare_categoria :: "(cell \<Rightarrow> string) \<Rightarrow> frame \<Rightarrow> error + frame \<times> int" where
  "prepare_categoria = prepare_dimension ''categoria''"

definition render_none :: "cell \<Rightarrow> string" where
  "render_none c = []"

definition cast_id :: "int \<Rightarrow> row \<Rightarrow> row" where
  "cast_id s r = put ''id'' (Num (of_int (int_entry s (get r ''id'')))) r"

definition normalize_label :: "string \<Rightarrow> (cell \<Rightarrow> string) \<Rightarrow> row \<Rightarrow> row" where
  "normalize_label lab py_str r = put lab (Txt (upper (strip (astype_str py_str (get r lab))))) r"

definition prepare_marca :: "(cell \<Rightarrow> string) \<Rightarrow> frame \<Rightarrow> error + frame \<times> int" where
  "prepare_marca = prepare_dimension ''marca''"



text \<open>
  Words for the statements about the dimension tables. A table in which float64 holds
  the numbers of a column, or the numeric ids, exactly; the id of the first row labelled OTHER; a row whose label normalises to
  OTHER; a row whose numeric id, cut to an integer, is below \<open>s\<close>; the rows of the input
  that the preparer keeps (label normalised, rows with neither id nor label dropped, later
  repeats of an (id, label) pair dropped); a row of a returned table (an integer id and a
  normalised label).
\<close>

definition exact_column :: "frame \<Rightarrow> string \<Rightarrow> bool" where
  "exact_column f c = list_all (\<lambda>r. exact_number (get r c)) (rows f)"

definition exact_ids :: "frame \<Rightarrow> bool" where
  "exact_ids f = exact_column f ''id''"

definition first_other_id :: "string \<Rightarrow> frame \<Rightarrow> cell option" where
  "first_other_id lab g =
     (case filter (is_other lab) (rows g) of [] \<Rightarrow> None | r # _ \<Rightarrow> Some (get r ''id''))"

definition has_other_label :: "string \<Rightarrow> (cell \<Rightarrow> string) \<Rightarrow> row \<Rightarrow> bool" where
  "has_other_label lab py_str r = (upper (strip (astype_str py_str (get r lab))) = ''OTHER'')"

definition below_sentinel :: "int \<Rightarrow> row \<Rightarrow> bool" where
  "below_sentinel s r = (case get r ''id'' of Num q \<Rightarrow> trunc q < s | _ \<Rightarrow> True)"

definition kept_rows :: "string \<Rightarrow> (cell \<Rightarrow> string) \<Rightarrow> frame \<Rightarrow> row list" where
  "kept_rows lab py_str f =
     drop_dups (\<lambda>r. map (get r) [''id'', lab]) []
       (filter (\<lambda>r. \<not> mask_empty lab r) (map (normalize_label lab py_str) (rows f)))"

text \<open>
  The returned table \<open>g\<close> and sentinel \<open>s\<close> for the input \<open>f\<close>: the first row labelled OTHER
  has the id \<open>s\<close>; the rows are the kept rows of the input, followed by a new OTHER row
  with the id \<open>s\<close> when no input label normalises to OTHER, each with its id cut to an
  integer, or set to \<open>s\<close> where it was missing or not a number; and in that case of a new
  OTHER row it is the only row labelled OTHER and \<open>s\<close> is above every numeric input id.
\<close>

definition sentinel_row :: "string \<Rightarrow> (cell \<Rightarrow> string) \<Rightarrow> frame \<Rightarrow> frame \<Rightarrow> int \<Rightarrow> bool" where
  "sentinel_row lab py_str f g s =
     (first_other_id lab g = Some (Num (of_int s)) \<and>
      rows g = map (cast_id s)
                 (kept_rows lab py_str f @
                  (if list_ex (has_other_label lab py_str) (rows f) then []
                   else [other_row lab (columns f) s])) \<and>
      (\<not> list_ex (has_other_label lab py_str) (rows f) \<longrightarrow>
         length (filter (is_other lab) (rows g)) = 1 \<and> list_all (below_sentinel s) (rows f)))"

text \<open>A table whose ids are all whole numbers of absolute value at most \<open>2^53\<close>.\<close>

definition int_ids :: "frame \<Rightarrow> bool" where
  "int_ids g = list_all (\<lambda>r. exact_int (get r ''id'')) (rows g)"

definition clean_row :: "string \<Rightarrow> row \<Rightarrow> bool" where
  "clean_row lab r =
     ((\<exists>i. map_of r ''id'' = Some (Num (of_int i))) \<and>
      (\<exists>t. map_of r lab = Some (Txt t) \<and> upper (strip t) = t))"


text \<open>A table written out: its header and its rows, cell by cell.\<close>

definition frame_of :: "string list \<Rightarrow> cell list list \<Rightarrow> frame" where
  "frame_of cs rs = \<lparr>columns = cs, rows = map (zip cs) rs\<rparr>"

section \<open>prepare_events\<close>

text \<open>\<open>.drop(columns=cs, errors="ignore")\<close>: a name that is not a column is passed over.\<close>

definition drop_columns :: "string list \<Rightarrow> frame \<Rightarrow> frame" where
  "drop_columns cs f =
     \<lparr>columns = filter (\<lambda>c. c \<notin> set cs) (columns f),
      rows = map (filter (\<lambda>kv. fst kv \<notin> set cs)) (rows f)\<rparr>"

text \<open>
  \<open>pd.to_datetime(..., unit="ms", errors="coerce")\<close> is the parameter \<open>to_datetime\<close>, applied
  cell by cell. \<open>drop_duplicates()\<close> without a subset compares all columns.
\<close>

definition prepare_events :: "(cell \<Rightarrow> cell) \<Rightarrow> (cell \<Rightarrow> string) \<Rightarrow> frame \<Rightarrow> error + frame" where
  "prepare_events to_datetime py_str events =
     (if \<not> has_col events ''timestamp'' then Inl KeyError
      else
        (let e1 = assign ''fecha'' (\<lambda>r. to_datetime (get r ''timestamp'')) events;
             e2 = drop_columns [''timestamp''] e1;
             e3 = drop_duplicates (columns e2) e2;
             e4 = drop_columns [''transactionid''] e3
         in if \<not> has_col e4 ''event'' then Inl KeyError
            else Inr (assign ''event''
                        (\<lambda>r. Txt (upper (astype_str py_str (get r ''event'')))) e4)))"

text \<open>
  A conversion for worked examples: a timestamp is written as its count of milliseconds,
  and what is not a number has no timestamp.
\<close>

definition ms_count :: "cell \<Rightarrow> cell" where
  "ms_count c = to_numeric c"

text \<open>
  The table on which prepare_events removes duplicates: \<open>fecha\<close> added, \<open>timestamp\<close>
  dropped, \<open>transactionid\<close> still there.
\<close>

definition events_before_dedup :: "(cell \<Rightarrow> cell) \<Rightarrow> frame \<Rightarrow> frame" where
  "events_before_dedup to_datetime events =
     drop_columns [''timestamp'']
       (assign ''fecha'' (\<lambda>r. to_datetime (get r ''timestamp'')) events)"

definition row_values :: "frame \<Rightarrow> row \<Rightarrow> cell list" where
  "row_values f r = map (get r) (columns f)"

definition lacks_column :: "frame \<Rightarrow> string \<Rightarrow> bool" where
  "lacks_column f c = (c \<notin> set (columns f) \<and> list_all (\<lambda>r. map_of r c = None) (rows f))"

text \<open>
  What prepare_events makes of one row that the removal of duplicates keeps: the
  \<open>transactionid\<close> entry is dropped and \<open>event\<close> is put in upper case.
\<close>

definition event_row :: "(cell \<Rightarrow> string) \<Rightarrow> row \<Rightarrow> row" where
  "event_row py_str r =
     (let r1 = filter (\<lambda>kv. fst kv \<notin> set [''transactionid'']) r
      in put ''event'' (Txt (upper (astype_str py_str (get r1 ''event'')))) r1)"

section \<open>prepare_cliente\<close>

text \<open>\<open>dropna(how="all")\<close>: a row goes when every column of it is missing.\<close>

definition dropna_all :: "frame \<Rightarrow> frame" where
  "dropna_all f = select_rows (\<lambda>r. \<not> list_all (\<lambda>c. isna (get r c)) (columns f)) f"

definition full_name :: "(cell \<Rightarrow> string) \<Rightarrow> row \<Rightarrow> string" where
  "full_name py_str r =
     strip (strip (astype_str py_str (fillna (Txt []) (get r ''nombre''))) @ '' '' @
            strip (astype_str py_str (fillna (Txt []) (get r ''apellido''))))"

text \<open>Days from 1 January 1970 to a day of the Gregorian calendar.\<close>

definition days_from_civil :: "int \<Rightarrow> int \<Rightarrow> int \<Rightarrow> int" where
  "days_from_civil y m d =
     (let y' = (if m \<le> 2 then y - 1 else y);
          era = y' div 400;
          yoe = y' - era * 400;
          doy = (153 * (if 2 < m then m - 3 else m + 9) + 2) div 5 + d - 1;
          doe = yoe * 365 + yoe div 4 - yoe div 100 + doy
      in era * 146097 + doe - 719468)"

text \<open>
  \<open>today - nacimiento\<close> needs timestamps: a cell that is neither a date nor missing makes
  the subtraction raise. \<open>today\<close> is the day number of the current date.
\<close>

definition is_datetime :: "cell \<Rightarrow> bool" where
  "is_datetime c = (case c of Date _ _ _ \<Rightarrow> True | NA \<Rightarrow> True | _ \<Rightarrow> False)"

definition age_years :: "int \<Rightarrow> cell \<Rightarrow> cell" where
  "age_years today c =
     (case c of
        Date y m d \<Rightarrow> Num (of_int \<lfloor>(of_int (today - days_from_civil y m d) :: rat) / 365.25\<rfloor>)
      | _ \<Rightarrow> NA)"

definition str_upper :: "(cell \<Rightarrow> string) \<Rightarrow> string \<Rightarrow> row \<Rightarrow> cell" where
  "str_upper py_str c r = Txt (upper (astype_str py_str (get r c)))"

definition upper_if_present :: "(cell \<Rightarrow> string) \<Rightarrow> string \<Rightarrow> frame \<Rightarrow> frame" where
  "upper_if_present py_str c f = (if has_col f c then assign c (str_upper py_str c) f else f)"

text \<open>\<open>.replace({"F": "FEMALE", "M": "MALE"})\<close> replaces whole values.\<close>

definition replace_genero :: "cell \<Rightarrow> cell" where
  "replace_genero c =
     (if c = Txt ''F'' then Txt ''FEMALE'' else if c = Txt ''M'' then Txt ''MALE'' else c)"

definition prepare_cliente ::
  "int \<Rightarrow> (cell \<Rightarrow> cell) \<Rightarrow> (cell \<Rightarrow> string) \<Rightarrow> frame \<Rightarrow> error + frame" where
  "prepare_cliente today parse_mdY_func py_str cliente =
     (let c1 = drop_columns [''nit'', ''puesto'', ''correo'', ''telefono''] cliente;
          c2 = dropna_all (drop_duplicates (columns c1) c1)
      in if \<not> has_col c2 ''nombre'' \<or> \<not> has_col c2 ''apellido'' then Inl KeyError
         else
           (let c3 = drop_columns [''apellido'']
                       (assign ''nombre'' (\<lambda>r. Txt (full_name py_str r)) c2)
            in if \<not> has_col c3 ''id'' then Inl KeyError
               else
                 (case safe_int_cast (map to_numeric (col c3 ''id'')) (Some 0) of
                    Inl e \<Rightarrow> Inl e
                  | Inr ids \<Rightarrow>
                      (let c4 = set_col ''id'' (map (\<lambda>i. Num (of_int i)) ids) c3
                       in if \<not> has_col c4 ''nacimiento'' then Inl KeyError
                          else
                            (let c5 = assign ''nacimiento''
                                        (\<lambda>r. parse_mdY_func (get r ''nacimiento'')) c4
                             in if list_ex (\<lambda>r. \<not> is_datetime (get r ''nacimiento'')) (rows c5)
                                then Inl TypeError
                                else
                                  (let c6 = assign ''edad''
                                              (\<lambda>r. age_years today (get r ''nacimiento'')) c5;
                                       c7 = assign ''nombre'' (str_upper py_str ''nombre'') c6;
                                       c8 = (if has_col c7 ''genero''
                                             then assign ''genero''
                                                    (\<lambda>r. replace_genero (get r ''genero''))
                                                    (assign ''genero''
                                                       (str_upper py_str ''genero'') c7)
                                             else c7)
                                   in Inr (upper_if_present py_str ''ciudad''
                                            (upper_if_present py_str ''idioma''
                                              (upper_if_present py_str ''empresa'' c8)))))))))"

text \<open>The customer rows that prepare_cliente keeps, before any value is rewritten.\<close>

definition cliente_kept :: "frame \<Rightarrow> frame" where
  "cliente_kept cliente =
     (let c1 = drop_columns [''nit'', ''puesto'', ''correo'', ''telefono''] cliente
      in dropna_all (drop_duplicates (columns c1) c1))"

text \<open>What the specification says of one output row: its age against its date of birth.\<close>

definition edad_rule :: "int \<Rightarrow> row \<Rightarrow> bool" where
  "edad_rule today r =
     (case get r ''nacimiento'' of
        NA \<Rightarrow> get r ''edad'' = NA
      | Date y m d \<Rightarrow>
          get r ''edad'' = Num (of_int \<lfloor>(of_int (today - days_from_civil y m d) :: rat) / 365.25\<rfloor>)
      | _ \<Rightarrow> False)"

definition genero_rule :: "(cell \<Rightarrow> string) \<Rightarrow> cell \<Rightarrow> cell" where
  "genero_rule py_str c =
     (let u = upper (astype_str py_str c)
      in if u = ''F'' then Txt ''FEMALE'' else if u = ''M'' then Txt ''MALE'' else Txt u)"

text \<open>One kept customer row, rewritten value by value as prepare_cliente does up to the name.\<close>

definition cliente_row :: "int \<Rightarrow> (cell \<Rightarrow> cell) \<Rightarrow> (cell \<Rightarrow> string) \<Rightarrow> row \<Rightarrow> row" where
  "cliente_row today parse_mdY_func py_str r0 =
     (let r1 = put ''nombre'' (Txt (full_name py_str r0)) r0;
          r2 = filter (\<lambda>kv. fst kv \<notin> set [''apellido'']) r1;
          r3 = cast_id 0 r2;
          r4 = put ''nacimiento'' (parse_mdY_func (get r3 ''nacimiento'')) r3;
          r5 = put ''edad'' (age_years today (get r4 ''nacimiento'')) r4
      in put ''nombre'' (str_upper py_str ''nombre'' r5) r5)"

text \<open>The parser as run_pipeline passes it: pivot 30, on nanosecond timestamps.\<close>

definition parse_mdY_default :: "cell \<Rightarrow> cell" where
  "parse_mdY_default s = parse_mdY ns_range s 30"

section \<open>merge_events_with_entities\<close>

text \<open>
  \<open>pd.merge(left, right, left_on=lk, right_on=rk, how="left", indicator=True)\<close>. A column
  name that both tables have gets the suffix \<open>_x\<close> on the left and \<open>_y\<close> on the right. Each
  left row, in order, is paired with every right row whose key equals its key (missing
  keys match each other); a left row with no partner is kept once, with missing values in
  the right columns and \<open>left_only\<close> in the indicator column \<open>_merge\<close>.
\<close>

definition suffix_x :: "string list \<Rightarrow> string \<Rightarrow> string" where
  "suffix_x rc c = (if c \<in> set rc then c @ ''_x'' else c)"

definition suffix_y :: "string list \<Rightarrow> string \<Rightarrow> string" where
  "suffix_y lc c = (if c \<in> set lc then c @ ''_y'' else c)"

definition merge_left :: "frame \<Rightarrow> frame \<Rightarrow> string \<Rightarrow> string \<Rightarrow> error + frame" where
  "merge_left l r lk rk =
     (if \<not> has_col l lk \<or> \<not> has_col r rk then Inl KeyError
      else if has_col l ''_merge'' \<or> has_col r ''_merge'' then Inl ValueError
      else
        (let lc = columns l; rc = columns r;
             left_part = (\<lambda>a. map (\<lambda>c. (suffix_x rc c, get a c)) lc);
             right_part = (\<lambda>b. map (\<lambda>c. (suffix_y lc c, get b c)) rc);
             right_missing = map (\<lambda>c. (suffix_y lc c, NA)) rc
         in Inr \<lparr>columns = map (suffix_x rc) lc @ map (suffix_y lc) rc @ [''_merge''],
                 rows = concat (map (\<lambda>a.
                          (let ms = filter (\<lambda>b. get b rk = get a lk) (rows r)
                           in if ms = []
                              then [left_part a @ right_missing @ [(''_merge'', Txt ''left_only'')]]
                              else map (\<lambda>b. left_part a @ right_part b @
                                               [(''_merge'', Txt ''both'')]) ms))
                          (rows l))\<rparr>))"

text \<open>\<open>.drop(columns=[c])\<close> without \<open>errors="ignore"\<close> raises when the column is not there.\<close>

definition drop_column :: "string \<Rightarrow> frame \<Rightarrow> error + frame" where
  "drop_column c f = (if has_col f c then Inr (drop_columns [c] f) else Inl KeyError)"

definition rename_column :: "string \<Rightarrow> string \<Rightarrow> frame \<Rightarrow> frame" where
  "rename_column old new f =
     \<lparr>columns = map (\<lambda>c. if c = old then new else c) (columns f),
      rows = map (map (\<lambda>kv. (if fst kv = old then new else fst kv, snd kv))) (rows f)\<rparr>"

text \<open>\<open>frame[cs]\<close> for column names \<open>cs\<close> taken from the frame itself.\<close>

definition select_columns :: "string list \<Rightarrow> frame \<Rightarrow> frame" where
  "select_columns cs f = \<lparr>columns = cs, rows = map (\<lambda>r. map (\<lambda>c. (c, get r c)) cs) (rows f)\<rparr>"

text \<open>
  \<open>pd.merge(left, right, on=ks, how="outer")\<close>: the key columns appear once. Every left row
  is paired with its partners on the right or kept with the right columns missing; every
  right row without a partner follows, with the left columns missing. pandas sorts the
  result by the keys; the order of the rows is not modelled beyond that.
\<close>

definition merge_outer :: "frame \<Rightarrow> frame \<Rightarrow> string list \<Rightarrow> error + frame" where
  "merge_outer l r ks =
     (if list_ex (\<lambda>k. \<not> has_col l k \<or> \<not> has_col r k) ks then Inl KeyError
      else
        (let lc = columns l; rc = filter (\<lambda>c. c \<notin> set ks) (columns r);
             lname = (\<lambda>c. if c \<in> set ks then c else suffix_x rc c);
             rname = suffix_y lc;
             same_key = (\<lambda>a b. list_all (\<lambda>k. get a k = get b k) ks);
             left_part = (\<lambda>a. map (\<lambda>c. (lname c, get a c)) lc);
             right_part = (\<lambda>b. map (\<lambda>c. (rname c, get b c)) rc)
         in Inr \<lparr>columns = map lname lc @ map rname rc,
                 rows =
                   concat (map (\<lambda>a.
                     (let ms = filter (same_key a) (rows r)
                      in if ms = [] then [left_part a @ map (\<lambda>c. (rname c, NA)) rc]
                         else map (\<lambda>b. left_part a @ right_part b) ms)) (rows l)) @
                   map (\<lambda>b. map (\<lambda>c. (lname c, if c \<in> set ks then get b c else NA)) lc @
                             right_part b)
                     (filter (\<lambda>b. \<not> list_ex (\<lambda>a. same_key a b) (rows l)) (rows r))\<rparr>))"

definition merge_events_with_entities ::
  "frame \<Rightarrow> frame \<Rightarrow> frame \<Rightarrow> error + frame \<times> frame \<times> frame" where
  "merge_events_with_entities events producto_enriq cliente =
     (case merge_left events producto_enriq ''itemid'' ''id'' of
        Inl e \<Rightarrow> Inl e
      | Inr m1 \<Rightarrow>
          (case drop_column ''id'' m1 of
             Inl e \<Rightarrow> Inl e
           | Inr d1 \<Rightarrow>
               (let events1 = rename_column ''_merge'' ''event+producto'' d1
                in case merge_left events cliente ''visitorid'' ''id'' of
                     Inl e \<Rightarrow> Inl e
                   | Inr m2 \<Rightarrow>
                       (case drop_column ''id'' m2 of
                          Inl e \<Rightarrow> Inl e
                        | Inr d2 \<Rightarrow>
                            (let events2 = rename_column ''_merge'' ''event+cliente'' d2;
                                 cols_to_use =
                                   filter (\<lambda>c. c \<notin> set (columns events1) \<or>
                                               c \<in> set [''visitorid'', ''itemid''])
                                     (columns events2)
                             in case merge_outer events1 (select_columns cols_to_use events2)
                                       [''visitorid'', ''itemid''] of
                                  Inl e \<Rightarrow> Inl e
                                | Inr eventos3 \<Rightarrow> Inr (events1, events2, eventos3))))))"

text \<open>
  The words of the join-provenance property: an event row (or a row of a view) whose
  itemid equals no product id; a row in which every column of the product table other
  than id is missing; a row that carries the values of another on given columns.
\<close>

definition unmatched :: "frame \<Rightarrow> row \<Rightarrow> bool" where
  "unmatched producto_enriq r =
     (\<not> list_ex (\<lambda>b. get b ''id'' = get r ''itemid'') (rows producto_enriq))"

definition product_missing :: "frame \<Rightarrow> row \<Rightarrow> bool" where
  "product_missing producto_enriq r =
     list_all (\<lambda>c. c = ''id'' \<or> isna (get r c)) (columns producto_enriq)"

definition agrees :: "string list \<Rightarrow> row \<Rightarrow> row \<Rightarrow> bool" where
  "agrees cs a r = list_all (\<lambda>c. get r c = get a c) cs"

text \<open>
  Tables whose column names do not collide: the events table and the product table share
  no column name, and neither has a column called \<open>event+producto\<close>.
\<close>

definition plain_names :: "frame \<Rightarrow> frame \<Rightarrow> bool" where
  "plain_names events producto_enriq =
     (list_all (\<lambda>c. c \<notin> set (columns producto_enriq)) (columns events) \<and>
      ''event+producto'' \<notin> set (columns events) \<and>
      ''event+producto'' \<notin> set (columns producto_enriq))"

definition project :: "string list \<Rightarrow> row \<Rightarrow> row" where
  "project cs a = map (\<lambda>c. (c, get a c)) cs"

text \<open>The two shapes of a row of the Event-Product view.\<close>

definition view_row :: "string list \<Rightarrow> row \<Rightarrow> row \<Rightarrow> string \<Rightarrow> row" where
  "view_row lc a right_part tag =
     map (\<lambda>kv. (if fst kv = ''_merge'' then ''event+producto'' else fst kv, snd kv))
       (filter (\<lambda>kv. fst kv \<notin> set [''id''])
          (project lc a @ right_part @ [(''_merge'', Txt tag)]))"

section \<open>prepare_producto\<close>

text \<open>The values of a numeric series that are not missing.\<close>

fun nums :: "cell list \<Rightarrow> rat list" where
  "nums [] = []"
| "nums (Num r # cs) = r # nums cs"
| "nums (_ # cs) = nums cs"

text \<open>\<open>median\<close> skips missing values; of no value it is missing.\<close>

definition median :: "cell list \<Rightarrow> cell" where
  "median cs =
     (let xs = sort (nums cs); n = length xs
      in if n = 0 then NA
         else if odd n then Num (xs ! (n div 2))
         else Num ((xs ! (n div 2 - 1) + xs ! (n div 2)) / 2))"

text \<open>
  \<open>first_mode\<close>: \<open>series.mode(dropna=True)\<close> lists the most frequent values in ascending
  order, \<open>.iloc[0]\<close> takes the first; of no value the result is missing.
\<close>

definition first_mode :: "cell list \<Rightarrow> cell" where
  "first_mode cs =
     (let xs = nums cs;
          top = foldr max (map (count_list xs) xs) 0
      in case sort (filter (\<lambda>x. count_list xs x = top) xs) of
           [] \<Rightarrow> NA
         | x # _ \<Rightarrow> Num x)"

text \<open>
  \<open>df.groupby(by)[target].transform(agg)\<close>, row by row: a row with a missing key belongs
  to no group and gets a missing value; any other row gets the aggregate of the target
  over the rows with its keys.
\<close>

definition group_transform ::
  "string list \<Rightarrow> string \<Rightarrow> (cell list \<Rightarrow> cell) \<Rightarrow> frame \<Rightarrow> row \<Rightarrow> cell" where
  "group_transform by_cols target agg f r =
     (if list_ex (\<lambda>c. isna (get r c)) by_cols then NA
      else agg (map (\<lambda>q. get q target)
                  (filter (\<lambda>q. map (get q) by_cols = map (get r) by_cols) (rows f))))"

definition group_mode_transform :: "frame \<Rightarrow> string list \<Rightarrow> string \<Rightarrow> row \<Rightarrow> cell" where
  "group_mode_transform df by_cols target_col = group_transform by_cols target_col first_mode df"

definition coerce_numeric :: "string \<Rightarrow> frame \<Rightarrow> frame" where
  "coerce_numeric c f = (if has_col f c then assign c (\<lambda>r. to_numeric (get r c)) f else f)"

definition mask_drop :: "row \<Rightarrow> bool" where
  "mask_drop r = (isna (get r ''categoria_id'') \<and> fillna (Num 0) (get r ''volumen'') = Num 0)"

text \<open>The first two steps of the price cascade: the fill by (categoria_id, volumen) group
  median, then zero prices made missing again.\<close>

definition precio_reopened :: "frame \<Rightarrow> frame" where
  "precio_reopened f =
     (let f1 = assign ''precio''
                 (\<lambda>r. fillna (group_transform [''categoria_id'', ''volumen''] ''precio'' median f r)
                         (get r ''precio'')) f
      in assign ''precio''
           (\<lambda>r. if get r ''precio'' = Num 0 then NA else get r ''precio'') f1)"

definition impute_precio :: "frame \<Rightarrow> frame" where
  "impute_precio f =
     (let f2 = precio_reopened f;
          f3 = assign ''precio''
                 (\<lambda>r. fillna (group_transform [''volumen''] ''precio'' median f2 r)
                         (get r ''precio'')) f2
      in assign ''precio'' (\<lambda>r. fillna (median (col f3 ''precio'')) (get r ''precio'')) f3)"

definition mask_both_na :: "row \<Rightarrow> bool" where
  "mask_both_na r = (isna (get r ''marca_id'') \<and> isna (get r ''categoria_id''))"

definition assign_both_missing :: "int \<Rightarrow> int \<Rightarrow> frame \<Rightarrow> frame" where
  "assign_both_missing other_brand_id other_cat_id f =
     f\<lparr>rows := map (\<lambda>r. if mask_both_na r
                        then put ''categoria_id'' (Num (of_int other_cat_id))
                               (put ''marca_id'' (Num (of_int other_brand_id)) r)
                        else r) (rows f)\<rparr>"

definition infer_categoria :: "int \<Rightarrow> frame \<Rightarrow> frame" where
  "infer_categoria other_cat_id f =
     (let f1 = assign ''categoria_id''
                 (\<lambda>r. if \<not> isna (get r ''categoria_id'') then get r ''categoria_id''
                      else group_mode_transform f [''marca_id'', ''volumen''] ''categoria_id'' r) f
      in assign ''categoria_id''
           (\<lambda>r. fillna (Num (of_int other_cat_id)) (get r ''categoria_id'')) f1)"

definition cast_column :: "string \<Rightarrow> int option \<Rightarrow> frame \<Rightarrow> error + frame" where
  "cast_column c fill_value f =
     (if \<not> has_col f c then Inl KeyError
      else (case safe_int_cast (map to_numeric (col f c)) fill_value of
              Inl e \<Rightarrow> Inl e
            | Inr xs \<Rightarrow> Inr (set_col c (map (\<lambda>i. Num (of_int i)) xs) f)))"

text \<open>The product table up to the paired sentinel assignment, before the mode inference.\<close>

definition producto_before_inference :: "int \<Rightarrow> int \<Rightarrow> frame \<Rightarrow> frame" where
  "producto_before_inference other_brand_id other_cat_id producto =
     (let p0 = drop_duplicates (columns producto) producto;
          p1 = coerce_numeric ''precio'' (coerce_numeric ''volumen''
                 (coerce_numeric ''marca_id'' (coerce_numeric ''categoria_id'' p0)));
          p2 = select_rows (\<lambda>r. \<not> mask_drop r) p1
      in assign_both_missing other_brand_id other_cat_id (impute_precio p2))"

definition prepare_producto :: "(cell \<Rightarrow> string) \<Rightarrow> frame \<Rightarrow> int \<Rightarrow> int \<Rightarrow> error + frame" where
  "prepare_producto py_str producto other_brand_id other_cat_id =
     (if \<not> has_col producto ''categoria_id'' \<or> \<not> has_col producto ''volumen'' \<or>
         \<not> has_col producto ''precio'' \<or> \<not> has_col producto ''marca_id''
      then Inl KeyError
      else
        (let p4 = producto_before_inference other_brand_id other_cat_id producto;
             p5 = infer_categoria other_cat_id p4
         in case cast_column ''id'' None p5 of
              Inl e \<Rightarrow> Inl e
            | Inr p6 \<Rightarrow>
                (case cast_column ''categoria_id'' (Some other_cat_id) p6 of
                   Inl e \<Rightarrow> Inl e
                 | Inr p7 \<Rightarrow>
                     (case cast_column ''marca_id'' (Some other_brand_id) p7 of
                        Inl e \<Rightarrow> Inl e
                      | Inr p8 \<Rightarrow>
                          if \<not> has_col p8 ''nombre'' then Inl KeyError
                          else Inr (assign ''nombre''
                                      (\<lambda>r. Txt (upper (strip (astype_str py_str
                                                                 (get r ''nombre''))))) p8)))))"

text \<open>The cast of one cell of a row to an integer, with \<open>v\<close> for a missing value.\<close>

definition cast_cell :: "string \<Rightarrow> int \<Rightarrow> row \<Rightarrow> row" where
  "cast_cell c v r = put c (Num (of_int (int_entry v (get r c)))) r"

definition final_row :: "(cell \<Rightarrow> string) \<Rightarrow> int \<Rightarrow> int \<Rightarrow> int \<Rightarrow> row \<Rightarrow> row" where
  "final_row py_str i ob oc r =
     (let r1 = cast_cell ''marca_id'' ob (cast_cell ''categoria_id'' oc (cast_cell ''id'' i r))
      in put ''nombre'' (Txt (upper (strip (astype_str py_str (get r1 ''nombre''))))) r1)"

text \<open>
  Words for the product invariant: a price that is a positive number; a cell that is
  missing or a non-negative number; an input row that the drop rule keeps; the whole
  numbers found in a column; an id cell that holds a given sentinel or one of given ids.
\<close>

definition positive_cell :: "cell \<Rightarrow> bool" where
  "positive_cell c = (case c of Num q \<Rightarrow> 0 < q | _ \<Rightarrow> False)"

definition not_negative :: "cell \<Rightarrow> bool" where
  "not_negative c = (case c of Num q \<Rightarrow> 0 \<le> q | NA \<Rightarrow> True | _ \<Rightarrow> False)"

definition kept_row :: "row \<Rightarrow> bool" where
  "kept_row r =
     (\<not> (isna (to_numeric (get r ''categoria_id'')) \<and>
         fillna (Num 0) (to_numeric (get r ''volumen'')) = Num 0))"

definition column_ids :: "frame \<Rightarrow> string \<Rightarrow> int list" where
  "column_ids f c = map trunc (nums (map to_numeric (col f c)))"

definition id_from :: "int \<Rightarrow> int list \<Rightarrow> cell \<Rightarrow> bool" where
  "id_from v ids c = (c = Num (of_int v) \<or> list_ex (\<lambda>k. c = Num (of_int k)) ids)"

definition coerce_row :: "row \<Rightarrow> row" where
  "coerce_row r =
     (let r1 = put ''categoria_id'' (to_numeric (get r ''categoria_id'')) r;
          r2 = put ''marca_id'' (to_numeric (get r1 ''marca_id'')) r1;
          r3 = put ''volumen'' (to_numeric (get r2 ''volumen'')) r2
      in put ''precio'' (to_numeric (get r3 ''precio'')) r3)"

text \<open>The product rows that are left after duplicates, coercion and the drop rule.\<close>

definition kept_products :: "frame \<Rightarrow> frame" where
  "kept_products producto =
     \<lparr>columns = columns producto,
      rows = filter (\<lambda>r. \<not> mask_drop r)
               (map coerce_row
                  (drop_dups (\<lambda>r. map (get r) (columns producto)) [] (rows producto)))\<rparr>"

text \<open>A cell that is missing, the sentinel, or a number of the input column.\<close>

definition known_id :: "int \<Rightarrow> frame \<Rightarrow> string \<Rightarrow> cell \<Rightarrow> bool" where
  "known_id v producto c x =
     (x = NA \<or> x = Num (of_int v) \<or>
      (\<exists>q \<in> set (nums (map to_numeric (col producto c))). x = Num q))"

text \<open>The end-to-end scenario of the specification, with ids and names added.\<close>

definition scenario_producto :: frame where
  "scenario_producto =
     frame_of [''id'', ''nombre'', ''volumen'', ''precio'', ''categoria_id'', ''marca_id'']
       [[Num 1, Txt ''a'', Num 5, Num 0, NA, NA],
        [Num 2, Txt ''b'', Num 5, Num 10, Num 7, NA]]"

section \<open>Properties of safe_int_cast\<close>

lemma astype_int_filled:
  "astype_int (map (fillna (Num (of_int v))) (map to_numeric s)) = Inr (map (int_entry v) s)"
proof (induction s)
  case Nil
  show ?case by simp
next
  case (Cons c s)
  then show ?case
    by (cases c) (simp_all add: to_numeric_def fillna_def isna_def int_entry_def trunc_def)
qed

lemma filled_no_na: "\<not> list_ex isna (map (fillna (Num q)) s)"
  by (induction s) (simp_all add: fillna_def isna_def)

lemma astype_int_no_na:
  "\<not> list_ex isna (map to_numeric s) \<Longrightarrow>
   astype_int (map to_numeric s) = Inr (map (int_entry v) s)"
proof (induction s)
  case Nil
  show ?case by simp
next
  case (Cons c s)
  then show ?case
    by (cases c) (simp_all add: to_numeric_def isna_def int_entry_def)
qed

lemma safe_int_cast_fill: "safe_int_cast s (Some v) = Inr (map (int_entry v) s)"
  using astype_int_filled[of v s] filled_no_na[of "of_int v" "map to_numeric s"]
  by (simp add: safe_int_cast_def Let_def)

lemma safe_int_cast_nofill:
  "safe_int_cast s None =
     (if list_ex isna (map to_numeric s) \<and>
         list_ex (\<lambda>c. fractional c \<or> outside_int64 c) (map to_numeric s)
      then Inl TypeError else Inr (map (int_entry 0) s))"
  using astype_int_filled[of 0 s] astype_int_no_na[of s 0]
  by (simp add: safe_int_cast_def Let_def astype_Int64_def)

lemma int_entry_missing: "isna (to_numeric c) \<Longrightarrow> int_entry v c = v"
  by (simp add: int_entry_def isna_def)

lemma safe_int_cast_examples:
  "safe_int_cast [Num 1, NA, Num 3] (Some 0) = Inr [1, 0, 3]"
  "safe_int_cast [NA, NA] None = Inr [0, 0]"
  by (simp_all add: safe_int_cast_fill safe_int_cast_nofill int_entry_def to_numeric_def
      trunc_def isna_def fractional_def outside_int64_def)

text \<open>
  C5. The claim and the docstring of safe_int_cast (entries still missing are filled with
  0 and the series is cast to int) promise a result without missing entries for every
  numeric series. On the series \<open>[1.5, None]\<close> without a fill value the code returns
  nothing: the conversion to the nullable integer type raises TypeError on the fraction
  before the 0 is filled in.
\<close>

theorem safe_int_cast_raises:
  "safe_int_cast [Num (3 / 2), NA] None = Inl TypeError"
  by code_simp

section \<open>Properties of parse_mdY\<close>




lemma dropWhile_hd: "xs \<noteq> [] \<Longrightarrow> \<not> P (hd xs) \<Longrightarrow> dropWhile P xs = xs"
  by (cases xs) simp_all







section \<open>Properties of the dimension preparers\<close>

lemma get_put: "get (put c v r) c' = (if c' = c then v else get r c')"
  by (simp add: get_def put_def update_conv')

lemma put_same: "map_of r c = Some v \<Longrightarrow> put c v r = r"
  by (simp add: put_def update_triv)

lemma map_of_put: "map_of (put c v r) c = Some v"
  by (simp add: put_def update_conv')

lemma map_of_put_other: "c' \<noteq> c \<Longrightarrow> map_of (put c v r) c' = map_of r c'"
  by (simp add: put_def update_conv')

lemma map2_same: "map2 f xs (map g xs) = map (\<lambda>x. f x (g x)) xs"
  by (induction xs) simp_all

lemma to_numeric_idem: "to_numeric (to_numeric c) = to_numeric c"
  by (cases c) (simp_all add: to_numeric_def)

lemma int_entry_to_numeric: "int_entry s (to_numeric c) = int_entry s c"
  by (simp add: int_entry_def to_numeric_idem)

lemma cast_rows:
  "set_col ''id'' (map (\<lambda>i. Num (of_int i)) (map (int_entry s) (map to_numeric (col f ''id'')))) f =
     \<lparr>columns = add_col ''id'' (columns f), rows = map (cast_id s) (rows f)\<rparr>"
proof -
  have "map (\<lambda>i. Num (of_int i)) (map (int_entry s) (map to_numeric (col f ''id''))) =
        map (\<lambda>r. Num (of_int (int_entry s (get r ''id'')))) (rows f)"
    by (simp add: col_def int_entry_to_numeric comp_def)
  then show ?thesis
    by (simp add: set_col_def map2_same cast_id_def)
qed

lemma trunc_mono: "q \<le> m \<Longrightarrow> trunc q \<le> trunc m"
  unfolding trunc_def
  by (auto intro: floor_mono ceiling_mono) (meson ceiling_le_zero order_trans zero_le_floor less_imp_le not_le)

lemma trunc_of_int: "trunc (of_int i) = i"
  by (simp add: trunc_def)

lemma max_numeric_ge:
  "Num q \<in> set cs \<Longrightarrow> \<exists>m. max_numeric cs = Num m \<and> q \<le> m"
proof (induction cs)
  case Nil
  then show ?case by simp
next
  case (Cons c cs)
  then show ?case
    by (cases c; cases "max_numeric cs") (auto simp: max_def)
qed

lemma drop_dups_keys:
  "x \<in> set xs \<Longrightarrow> key x \<in> set seen \<or> key x \<in> key ` set (drop_dups key seen xs)"
proof (induction xs arbitrary: seen)
  case Nil
  then show ?case by simp
next
  case (Cons a xs)
  show ?case
  proof (cases "x = a")
    case True
    then show ?thesis by simp
  next
    case False
    with Cons.prems have "x \<in> set xs" by simp
    from Cons.IH[OF this, of seen] Cons.IH[OF this, of "key a # seen"]
    show ?thesis by auto
  qed
qed

lemma drop_dups_subset: "set (drop_dups key seen xs) \<subseteq> set xs"
  by (induction xs arbitrary: seen) auto

lemma add_col_present: "c \<in> set cs \<Longrightarrow> add_col c cs = cs"
  by (simp add: add_col_def)

lemma prepare_dimension_unfold:
  assumes "has_col f lab" "has_col f ''id''"
  shows "prepare_dimension lab py_str f =
     (case ensure_other lab \<lparr>columns = columns f, rows = kept_rows lab py_str f\<rparr> of
        Inl e \<Rightarrow> Inl e
      | Inr (f4, s) \<Rightarrow>
          Inr (\<lparr>columns = add_col ''id'' (columns f4), rows = map (cast_id s) (rows f4)\<rparr>, s))"
proof -
  have "drop_duplicates [''id'', lab]
          (select_rows (\<lambda>r. \<not> mask_empty lab r)
             (assign lab (\<lambda>r. Txt (upper (strip (astype_str py_str (get r lab))))) f)) =
        \<lparr>columns = columns f, rows = kept_rows lab py_str f\<rparr>"
    using assms
    by (simp add: drop_duplicates_def select_rows_def assign_def kept_rows_def
        normalize_label_def[abs_def] add_col_present has_col_def)
  then show ?thesis
    using assms
    by (simp add: prepare_dimension_def Let_def safe_int_cast_fill cast_rows[simplified]
        split: sum.splits prod.splits)
qed

lemma ensure_other_cases:
  assumes "ensure_other lab f = Inr (f4, s)"
  shows "(\<exists>r rest q. filter (is_other lab) (rows f) = r # rest \<and> get r ''id'' = Num q \<and>
            trunc q = s \<and> f4 = f) \<or>
         (\<not> list_ex (is_other lab) (rows f) \<and>
            f4 = f\<lparr>rows := rows f @ [other_row lab (columns f) s]\<rparr> \<and>
            s = (case max_numeric (map to_numeric (col f ''id'')) of
                   Num r \<Rightarrow> trunc r | _ \<Rightarrow> 0) + 1)"
proof (cases "list_ex (is_other lab) (rows f)")
  case True
  with assms show ?thesis
    unfolding ensure_other_def to_numeric_raise_def py_int_def
    by (auto split: if_splits sum.splits list.splits cell.splits)
next
  case False
  with assms show ?thesis
    unfolding ensure_other_def by (auto simp: Let_def)
qed

lemma is_other_cast: "lab \<noteq> ''id'' \<Longrightarrow> is_other lab (cast_id s r) = is_other lab r"
  by (simp add: is_other_def cast_id_def get_put)

lemma filter_other_cast:
  "lab \<noteq> ''id'' \<Longrightarrow>
   filter (is_other lab) (map (cast_id s) rs) = map (cast_id s) (filter (is_other lab) rs)"
  by (simp add: filter_map comp_def is_other_cast)

lemma get_other_row:
  "c \<in> set cs \<Longrightarrow>
   get (other_row lab cs i) c =
     (if c = ''id'' then Num (of_int i) else if c = lab then Txt ''OTHER'' else NA)"
  unfolding get_def other_row_def
  by (simp add: map_of_map_restrict restrict_map_def)

lemma id_cast_id: "get (cast_id s r) ''id'' = Num (of_int (int_entry s (get r ''id'')))"
  by (simp add: cast_id_def get_put)

lemma is_other_normalized:
  "is_other lab (normalize_label lab py_str r) = has_other_label lab py_str r"
  by (simp add: is_other_def normalize_label_def get_put has_other_label_def)

lemma kept_rows_subset:
  "set (kept_rows lab py_str f) \<subseteq> normalize_label lab py_str ` set (rows f)"
  unfolding kept_rows_def using drop_dups_subset by fastforce

lemma kept_rows_no_other:
  assumes "\<not> list_ex (has_other_label lab py_str) (rows f)"
  shows "\<not> list_ex (is_other lab) (kept_rows lab py_str f)"
  using assms kept_rows_subset[of lab py_str f]
  by (auto simp: list_ex_iff is_other_normalized)

lemma kept_rows_ids:
  assumes "r \<in> set (rows f)" "get r ''id'' = Num q" "lab \<noteq> ''id''"
  shows "Num q \<in> set (map (\<lambda>r. get r ''id'') (kept_rows lab py_str f))"
proof -
  let ?n = "normalize_label lab py_str r"
  have id: "get ?n ''id'' = Num q"
    using assms by (simp add: normalize_label_def get_put)
  then have "\<not> mask_empty lab ?n" by (simp add: mask_empty_def isna_def)
  then have "?n \<in> set (filter (\<lambda>r. \<not> mask_empty lab r) (map (normalize_label lab py_str) (rows f)))"
    using assms(1) by simp
  from drop_dups_keys[OF this, of "\<lambda>r. map (get r) [''id'', lab]" "[]"]
  obtain k where "k \<in> set (kept_rows lab py_str f)" "get k ''id'' = get ?n ''id''"
    unfolding kept_rows_def by auto
  with id show ?thesis by force
qed

lemma strip_other: "strip ''OTHER'' = ''OTHER''"
  by (simp add: strip_def is_space_def)

lemma other_not_empty: "is_other lab r \<Longrightarrow> \<not> mask_empty lab r"
  by (simp add: is_other_def mask_empty_def strip_other)

lemma kept_rows_other:
  assumes "list_ex (has_other_label lab py_str) (rows f)"
  shows "list_ex (is_other lab) (kept_rows lab py_str f)"
proof -
  from assms obtain r where r: "r \<in> set (rows f)" "has_other_label lab py_str r"
    by (auto simp: list_ex_iff)
  let ?n = "normalize_label lab py_str r"
  have o: "is_other lab ?n" using r(2) by (simp add: is_other_normalized)
  then have "?n \<in> set (filter (\<lambda>r. \<not> mask_empty lab r) (map (normalize_label lab py_str) (rows f)))"
    using r(1) other_not_empty by simp
  from drop_dups_keys[OF this, of "\<lambda>r. map (get r) [''id'', lab]" "[]"]
  obtain k where "k \<in> set (kept_rows lab py_str f)" "get k lab = get ?n lab"
    unfolding kept_rows_def by auto
  with o show ?thesis by (auto simp: list_ex_iff is_other_def)
qed

lemma prepare_dimension_sentinel:
  assumes "lab \<noteq> ''id''" "prepare_dimension lab py_str f = Inr (g, s)"
  shows "sentinel_row lab py_str f g s"
proof -
  have hc: "has_col f lab" "has_col f ''id''"
    using assms(2) by (auto simp: prepare_dimension_def split: if_splits)
  let ?f3 = "\<lparr>columns = columns f, rows = kept_rows lab py_str f\<rparr>"
  obtain f4 where eo: "ensure_other lab ?f3 = Inr (f4, s)"
    and g: "g = \<lparr>columns = add_col ''id'' (columns f4), rows = map (cast_id s) (rows f4)\<rparr>"
    using assms(2) unfolding prepare_dimension_unfold[OF hc]
    by (auto split: sum.splits prod.splits)
  from ensure_other_cases[OF eo]
  show ?thesis
  proof (elim disjE exE conjE)
    fix r rest q
    assume fo: "filter (is_other lab) (rows ?f3) = r # rest" and q: "get r ''id'' = Num q"
      and t: "trunc q = s" and f4: "f4 = ?f3"
    have "first_other_id lab g = Some (Num (of_int s))"
      using fo q t assms(1)
      by (simp add: first_other_id_def g f4 filter_other_cast id_cast_id int_entry_def to_numeric_def)
    moreover have "list_ex (has_other_label lab py_str) (rows f)"
    proof (rule ccontr)
      assume "\<not> list_ex (has_other_label lab py_str) (rows f)"
      from kept_rows_no_other[OF this] have "filter (is_other lab) (kept_rows lab py_str f) = []"
        by (simp add: list_ex_iff filter_empty_conv)
      with fo show False by simp
    qed
    moreover have "rows g = map (cast_id s) (kept_rows lab py_str f)"
      by (simp add: g f4)
    ultimately show ?thesis by (simp add: sentinel_row_def)
  next
    assume no: "\<not> list_ex (is_other lab) (rows ?f3)"
      and f4: "f4 = ?f3\<lparr>rows := rows ?f3 @ [other_row lab (columns ?f3) s]\<rparr>"
      and s: "s = (case max_numeric (map to_numeric (col ?f3 ''id'')) of
                   Num r \<Rightarrow> trunc r | _ \<Rightarrow> 0) + 1"
    have nof: "\<not> list_ex (has_other_label lab py_str) (rows f)"
      using no kept_rows_other[of lab py_str f] by auto
    have rg: "rows g = map (cast_id s) (kept_rows lab py_str f @ [other_row lab (columns f) s])"
      by (simp add: g f4)
    have fe: "filter (is_other lab) (kept_rows lab py_str f) = []"
      using no by (simp add: list_ex_iff filter_empty_conv)
    have oth: "is_other lab (other_row lab (columns f) s)"
      using hc assms(1) by (simp add: is_other_def get_other_row has_col_def)
    have oid: "get (other_row lab (columns f) s) ''id'' = Num (of_int s)"
      using hc by (simp add: get_other_row has_col_def)
    have fg: "filter (is_other lab) (rows g) = [cast_id s (other_row lab (columns f) s)]"
      using assms(1) fe oth by (simp add: g f4 filter_other_cast is_other_cast)
    have first: "first_other_id lab g = Some (Num (of_int s))"
      by (simp add: first_other_id_def fg id_cast_id oid int_entry_def to_numeric_def trunc_of_int)
    have below: "list_all (below_sentinel s) (rows f)"
      unfolding list_all_iff
    proof
      fix r assume r: "r \<in> set (rows f)"
      show "below_sentinel s r"
      proof (cases "get r ''id''")
        case (Num q)
        from kept_rows_ids[OF r Num assms(1), of py_str]
        obtain k where "k \<in> set (kept_rows lab py_str f)" "get k ''id'' = Num q"
          by auto
        then have "to_numeric (get k ''id'') = Num q" "k \<in> set (rows ?f3)"
          by (simp_all add: to_numeric_def)
        then have "Num q \<in> set (map to_numeric (col ?f3 ''id''))"
          unfolding col_def by force
        from max_numeric_ge[OF this] obtain m
          where m: "max_numeric (map to_numeric (col ?f3 ''id'')) = Num m" "q \<le> m" by blast
        then have "trunc q < s" using trunc_mono[OF m(2)] by (simp add: s)
        with Num show ?thesis by (simp add: below_sentinel_def)
      qed (simp_all add: below_sentinel_def)
    qed
    show ?thesis using first fg below nof rg by (simp add: sentinel_row_def)
  qed
qed

lemma trunc_bound: "\<bar>q\<bar> < 2 ^ 53 \<Longrightarrow> \<bar>trunc q\<bar> < 2 ^ 53"
  unfolding trunc_def
  by (auto simp: abs_if floor_less_iff less_ceiling_iff split: if_splits) linarith+

lemma max_numeric_mem: "max_numeric cs = Num m \<Longrightarrow> Num m \<in> set cs"
proof (induction cs arbitrary: m)
  case Nil
  then show ?case by simp
next
  case (Cons c cs)
  then show ?case
    by (cases c; cases "max_numeric cs") (auto simp: max_def split: if_splits)
qed

lemma kept_rows_exact:
  assumes "lab \<noteq> ''id''" "exact_ids f" "k \<in> set (kept_rows lab py_str f)"
  shows "exact_number (get k ''id'')"
proof -
  from assms(3) kept_rows_subset[of lab py_str f]
  obtain r where "r \<in> set (rows f)" "k = normalize_label lab py_str r" by auto
  with assms(1,2) show ?thesis
    by (simp add: exact_ids_def exact_column_def list_all_iff normalize_label_def get_put)
qed

lemma prepare_dimension_exact:
  assumes "lab \<noteq> ''id''" "prepare_dimension lab py_str f = Inr (g, s)" "exact_ids f"
  shows "exact_sentinel s"
proof -
  have hc: "has_col f lab" "has_col f ''id''"
    using assms(2) by (auto simp: prepare_dimension_def split: if_splits)
  let ?f3 = "\<lparr>columns = columns f, rows = kept_rows lab py_str f\<rparr>"
  obtain f4 where eo: "ensure_other lab ?f3 = Inr (f4, s)"
    using assms(2) unfolding prepare_dimension_unfold[OF hc]
    by (auto split: sum.splits prod.splits)
  from ensure_other_cases[OF eo]
  show ?thesis
  proof (elim disjE exE conjE)
    fix r rest q
    assume fo: "filter (is_other lab) (rows ?f3) = r # rest" and q: "get r ''id'' = Num q"
      and t: "trunc q = s"
    have "r \<in> set (filter (is_other lab) (rows ?f3))" unfolding fo by simp
    then have "r \<in> set (kept_rows lab py_str f)" by simp
    from kept_rows_exact[OF assms(1,3) this] q have "\<bar>q\<bar> < 2 ^ 53"
      by (simp add: exact_number_def)
    from trunc_bound[OF this] t show ?thesis by (simp add: exact_sentinel_def)
  next
    assume s: "s = (case max_numeric (map to_numeric (col ?f3 ''id'')) of
                   Num r \<Rightarrow> trunc r | _ \<Rightarrow> 0) + 1"
    show ?thesis
    proof (cases "max_numeric (map to_numeric (col ?f3 ''id''))")
      case (Num m)
      from max_numeric_mem[OF this] obtain k where k: "k \<in> set (kept_rows lab py_str f)"
        and m: "to_numeric (get k ''id'') = Num m"
        by (auto simp: col_def)
      from m have "get k ''id'' = Num m" by (cases "get k ''id''") (simp_all add: to_numeric_def)
      with kept_rows_exact[OF assms(1,3) k] have "\<bar>m\<bar> < 2 ^ 53"
        by (simp add: exact_number_def)
      from trunc_bound[OF this] show ?thesis using s Num by (simp add: exact_sentinel_def)
    qed (simp_all add: s exact_sentinel_def)
  qed
qed


lemma int_entry_bound:
  assumes "exact_number c" "exact_sentinel s"
  shows "\<bar>int_entry s c\<bar> \<le> 2 ^ 53"
proof (cases c)
  case (Num q)
  with assms(1) have "\<bar>q\<bar> < 2 ^ 53" by (simp add: exact_number_def)
  from trunc_bound[OF this] Num show ?thesis by (simp add: int_entry_def to_numeric_def)
qed (use assms(2) in \<open>simp_all add: int_entry_def to_numeric_def exact_sentinel_def\<close>)

lemma exact_int_of_int: "\<bar>i\<bar> \<le> 2 ^ 53 \<Longrightarrow> exact_int (Num (of_int i))"
proof -
  assume "\<bar>i\<bar> \<le> 2 ^ 53"
  then have "(of_int \<bar>i\<bar> :: rat) \<le> of_int (2 ^ 53)" by (simp only: of_int_le_iff)
  then have "\<bar>(of_int i :: rat)\<bar> \<le> 2 ^ 53" by simp
  then show ?thesis by (simp add: exact_int_def trunc_of_int)
qed

lemma prepare_dimension_int_ids:
  assumes "lab \<noteq> ''id''" "prepare_dimension lab py_str f = Inr (g, s)" "exact_ids f"
  shows "int_ids g"
proof -
  have hc: "has_col f ''id''"
    using assms(2) by (auto simp: prepare_dimension_def split: if_splits)
  note es = prepare_dimension_exact[OF assms]
  from prepare_dimension_sentinel[OF assms(1,2)]
  have rg: "set (rows g) \<subseteq> cast_id s ` (set (kept_rows lab py_str f) \<union> {other_row lab (columns f) s})"
    by (auto simp: sentinel_row_def split: if_splits)
  have "\<bar>int_entry s (get r ''id'')\<bar> \<le> 2 ^ 53"
    if "r \<in> set (kept_rows lab py_str f) \<union> {other_row lab (columns f) s}" for r
  proof (cases "r \<in> set (kept_rows lab py_str f)")
    case True
    from kept_rows_exact[OF assms(1,3) this] es show ?thesis by (rule int_entry_bound)
  next
    case False
    with that have "r = other_row lab (columns f) s" by simp
    then have "get r ''id'' = Num (of_int s)"
      using hc by (simp add: get_other_row has_col_def)
    then show ?thesis
      using es by (simp add: int_entry_def to_numeric_def trunc_of_int exact_sentinel_def)
  qed
  then have b: "\<And>r. r \<in> set (kept_rows lab py_str f) \<union> {other_row lab (columns f) s} \<Longrightarrow>
                  \<bar>int_entry s (get r ''id'')\<bar> \<le> 2 ^ 53" .
  show ?thesis
    unfolding int_ids_def list_all_iff
  proof (intro ballI)
    fix r' assume "r' \<in> set (rows g)"
    with rg obtain r where r: "r \<in> set (kept_rows lab py_str f) \<union> {other_row lab (columns f) s}"
      and r': "r' = cast_id s r" by blast
    have "\<bar>int_entry s (get r ''id'')\<bar> \<le> 2 ^ 53" using r by (rule b)
    then show "exact_int (get r' ''id'')"
      by (simp add: r' id_cast_id exact_int_of_int)
  qed
qed

lemma of_char_upper_char:
  "of_char (upper_char c) = (let n = of_char c :: nat in if 97 \<le> n \<and> n \<le> 122 then n - 32 else n)"
  by (auto simp: upper_char_def Let_def)

lemma upper_char_idem: "upper_char (upper_char c) = upper_char c"
proof -
  have "\<not> (97 \<le> (of_char (upper_char c) :: nat) \<and> (of_char (upper_char c) :: nat) \<le> 122)"
    by (auto simp: of_char_upper_char Let_def)
  then show ?thesis
    by (subst (1) upper_char_def) (auto simp: Let_def)
qed

lemma is_space_upper_char: "is_space (upper_char c) = is_space c"
  by (auto simp: is_space_def of_char_upper_char Let_def)

lemma upper_idem: "upper (upper s) = upper s"
  by (simp add: upper_def upper_char_idem)

lemma strip_upper: "strip (upper s) = upper (strip s)"
  by (simp add: strip_def upper_def dropWhile_map rev_map comp_def is_space_upper_char)

lemma dropWhile_keeps_last: "dropWhile P xs \<noteq> [] \<Longrightarrow> last (dropWhile P xs) = last xs"
  by (induction xs) (auto split: if_splits)

lemma strip_idem: "strip (strip s) = strip s"
proof -
  define z where "z = dropWhile is_space s"
  define w where "w = dropWhile is_space (rev z)"
  have s: "strip s = rev w" by (simp add: strip_def z_def w_def)
  have "dropWhile is_space (rev w) = rev w"
  proof (cases "w = []")
    case True
    then show ?thesis by simp
  next
    case False
    then have "last w = last (rev z)" unfolding w_def by (rule dropWhile_keeps_last)
    moreover have "z \<noteq> []" using False by (auto simp: w_def)
    ultimately have "hd (rev w) = hd z" using False by (simp add: hd_rev last_rev)
    moreover have "\<not> is_space (hd z)"
      using \<open>z \<noteq> []\<close> unfolding z_def by (rule hd_dropWhile)
    ultimately show ?thesis using False by (intro dropWhile_hd) simp_all
  qed
  moreover have "dropWhile is_space w = w" by (simp add: w_def)
  ultimately show ?thesis by (simp add: s strip_def[of "rev w"])
qed

lemma normal_idem: "upper (strip (upper (strip s))) = upper (strip s)"
  by (simp add: strip_upper upper_idem strip_idem)

lemma filter_drop_dups_first:
  assumes "\<forall>k \<in> set seen. \<not> Q k" "filter (\<lambda>x. Q (key x)) xs = x # rest"
  shows "\<exists>rest'. filter (\<lambda>x. Q (key x)) (drop_dups key seen xs) = x # rest'"
  using assms
proof (induction xs arbitrary: seen rest)
  case Nil
  then show ?case by simp
next
  case (Cons a xs)
  show ?case
  proof (cases "Q (key a)")
    case True
    with Cons.prems have "x = a" "key a \<notin> set seen" by auto
    with True show ?thesis by simp
  next
    case False
    with Cons.prems have f: "filter (\<lambda>x. Q (key x)) xs = x # rest" by simp
    show ?thesis
    proof (cases "key a \<in> set seen")
      case True
      with Cons.IH[OF Cons.prems(1) f] show ?thesis by simp
    next
      case nin: False
      have "\<forall>k \<in> set (key a # seen). \<not> Q k" using False Cons.prems(1) by simp
      from Cons.IH[OF this f] nin False show ?thesis by simp
    qed
  qed
qed

lemma get_map_of: "map_of r c = Some v \<Longrightarrow> get r c = v"
  by (simp add: get_def)

lemma clean_cast_id:
  assumes "lab \<noteq> ''id''" "\<exists>t. map_of r lab = Some (Txt t) \<and> upper (strip t) = t"
  shows "clean_row lab (cast_id s r)"
  using assms by (auto simp: clean_row_def cast_id_def map_of_put map_of_put_other)

lemma map_of_other_row:
  "c \<in> set cs \<Longrightarrow>
   map_of (other_row lab cs i) c =
     Some (if c = ''id'' then Num (of_int i) else if c = lab then Txt ''OTHER'' else NA)"
  unfolding other_row_def by (simp add: map_of_map_restrict restrict_map_def)

lemma other_normal: "upper (strip ''OTHER'') = ''OTHER''"
  by (simp add: upper_def strip_def is_space_def upper_char_def)

lemma kept_rows_label:
  assumes "r \<in> set (kept_rows lab py_str f)"
  shows "\<exists>t. map_of r lab = Some (Txt t) \<and> upper (strip t) = t"
proof -
  from assms kept_rows_subset[of lab py_str f]
  obtain r0 where "r = normalize_label lab py_str r0" by auto
  then show ?thesis by (simp add: normalize_label_def map_of_put normal_idem)
qed

lemma prepare_dimension_clean:
  assumes "lab \<noteq> ''id''" "prepare_dimension lab py_str f = Inr (g, s)"
  shows "columns g = columns f \<and> has_col f lab \<and> has_col f ''id'' \<and>
         list_all (clean_row lab) (rows g)"
proof -
  have hc: "has_col f lab" "has_col f ''id''"
    using assms(2) by (auto simp: prepare_dimension_def split: if_splits)
  let ?f3 = "\<lparr>columns = columns f, rows = kept_rows lab py_str f\<rparr>"
  obtain f4 where eo: "ensure_other lab ?f3 = Inr (f4, s)"
    and g: "g = \<lparr>columns = add_col ''id'' (columns f4), rows = map (cast_id s) (rows f4)\<rparr>"
    using assms(2) unfolding prepare_dimension_unfold[OF hc]
    by (auto split: sum.splits prod.splits)
  have "columns f4 = columns f \<and>
        (\<forall>r \<in> set (rows f4). \<exists>t. map_of r lab = Some (Txt t) \<and> upper (strip t) = t)"
    using ensure_other_cases[OF eo] hc assms(1) kept_rows_label[of _ lab py_str f]
    by (auto simp: map_of_other_row has_col_def other_normal)
  then show ?thesis
    using hc assms(1) by (auto simp: g add_col_present has_col_def list_all_iff clean_cast_id)
qed

lemma clean_row_fixed:
  assumes "clean_row lab r"
  shows "normalize_label lab py_str r = r" "\<not> mask_empty lab r" "cast_id s r = r"
    "\<exists>i. get r ''id'' = Num (of_int i)"
proof -
  from assms obtain i t where i: "map_of r ''id'' = Some (Num (of_int i))"
    and t: "map_of r lab = Some (Txt t)" "upper (strip t) = t"
    by (auto simp: clean_row_def)
  show "normalize_label lab py_str r = r"
    using t by (simp add: normalize_label_def get_map_of astype_str_def put_same)
  show "\<not> mask_empty lab r"
    using i by (simp add: mask_empty_def get_map_of isna_def)
  show "cast_id s r = r"
    using i by (simp add: cast_id_def get_map_of int_entry_def to_numeric_def trunc_of_int put_same)
  show "\<exists>i. get r ''id'' = Num (of_int i)"
    using i by (auto simp: get_map_of)
qed

lemma kept_rows_clean:
  assumes "list_all (clean_row lab) (rows f)"
  shows "kept_rows lab py_str f = drop_dups (\<lambda>r. [get r ''id'', get r lab]) [] (rows f)"
proof -
  have "map (normalize_label lab py_str) (rows f) = rows f"
    using assms by (intro map_idI) (simp add: list_all_iff clean_row_fixed)
  moreover have "filter (\<lambda>r. \<not> mask_empty lab r) (rows f) = rows f"
    using assms by (simp add: list_all_iff clean_row_fixed)
  ultimately show ?thesis by (simp add: kept_rows_def)
qed

lemma prepare_dimension_twice:
  assumes "lab \<noteq> ''id''" "prepare_dimension lab py_str f = Inr (g, s)"
  shows "prepare_dimension lab py_str g = Inr (drop_duplicates [''id'', lab] g, s)"
proof -
  from prepare_dimension_clean[OF assms]
  have cols: "columns g = columns f" and hc: "has_col g lab" "has_col g ''id''"
    and cl: "list_all (clean_row lab) (rows g)"
    by (simp_all add: has_col_def)
  let ?key = "\<lambda>r. [get r ''id'', get r lab]"
  let ?d = "drop_dups ?key [] (rows g)"
  have kr: "kept_rows lab py_str g = ?d"
    using kept_rows_clean[OF cl, of py_str] by simp
  have cld: "\<forall>r \<in> set ?d. clean_row lab r"
    using cl drop_dups_subset[of ?key "[]" "rows g"] by (auto simp: list_all_iff)
  from prepare_dimension_sentinel[OF assms]
  obtain r rest where fo: "filter (is_other lab) (rows g) = r # rest"
    and rid: "get r ''id'' = Num (of_int s)"
    by (auto simp: sentinel_row_def first_other_id_def split: list.splits)
  have "filter (\<lambda>x. (\<lambda>k. k ! 1 = Txt ''OTHER'') (?key x)) (rows g) = r # rest"
    using fo by (simp add: is_other_def[abs_def])
  from filter_drop_dups_first[where seen = "[]" and key = ?key, OF _ this]
  obtain rest' where fd: "filter (is_other lab) ?d = r # rest'"
    by (auto simp: is_other_def[abs_def])
  have nums: "\<forall>c \<in> set (map (\<lambda>r. get r ''id'') (filter (is_other lab) ?d)). \<exists>i. c = Num (of_int i)"
    using cld clean_row_fixed(4) by auto
  have tr: "to_numeric_raise (map (\<lambda>r. get r ''id'') (filter (is_other lab) ?d)) =
            Inr (map (\<lambda>r. get r ''id'') (filter (is_other lab) ?d))"
    using nums unfolding to_numeric_raise_def by (auto simp: list_ex_iff)
  have ex: "list_ex (is_other lab) ?d"
  proof -
    have "r \<in> set (filter (is_other lab) ?d)" unfolding fd by simp
    then show ?thesis by (auto simp: list_ex_iff)
  qed
  have eo: "ensure_other lab \<lparr>columns = columns g, rows = ?d\<rparr> =
            Inr (\<lparr>columns = columns g, rows = ?d\<rparr>, s)"
    using ex tr by (simp add: ensure_other_def fd rid py_int_def trunc_of_int)
  have "map (cast_id s) ?d = ?d"
  proof (rule map_idI)
    fix x assume "x \<in> set ?d"
    with cld have "clean_row lab x" by blast
    then show "cast_id s x = x" by (rule clean_row_fixed(3))
  qed
  then show ?thesis
    using hc by (simp add: prepare_dimension_unfold[OF hc] kr eo drop_duplicates_def
        add_col_present has_col_def)
qed

lemma drop_dups_distinct:
  "distinct (map key xs) \<Longrightarrow> \<forall>x \<in> set xs. key x \<notin> set seen \<Longrightarrow> drop_dups key seen xs = xs"
proof (induction xs arbitrary: seen)
  case Nil
  show ?case by simp
next
  case (Cons a xs)
  have "\<forall>x \<in> set xs. key x \<notin> set (key a # seen)"
    using Cons.prems by (auto simp: image_iff)
  with Cons show ?case by simp
qed

lemma drop_duplicates_distinct:
  "distinct (map (\<lambda>r. [get r ''id'', get r lab]) (rows g)) \<Longrightarrow>
   drop_duplicates [''id'', lab] g = g"
  by (simp add: drop_duplicates_def drop_dups_distinct)

text \<open>
  C1, as amended. For an input table whose numeric ids are below \<open>2^53\<close> in absolute
  value: whenever prepare_categoria (prepare_marca) returns a table and a sentinel id, the
  table has a row labelled OTHER and the sentinel is the id of the first such row; the
  returned rows are the kept rows of the input (label normalised, rows with neither id nor
  label dropped, later repeats of an (id, label) pair dropped), followed by a new OTHER
  row when no input label normalises to OTHER, and each has as id the integer part of its
  input id, or the sentinel where the input id was missing or not a number. When no input
  label normalises to OTHER, exactly one returned row is labelled OTHER and the sentinel
  is larger than the integer part of every numeric id of the input. The sentinel and all
  returned ids are whole numbers of absolute value at most \<open>2^53\<close>.
\<close>

theorem prepare_dimension_other_row:
  "exact_ids f \<longrightarrow>
   (prepare_categoria py_str f = Inr (g, s) \<longrightarrow>
      sentinel_row ''categoria'' py_str f g s \<and> exact_sentinel s \<and> int_ids g) \<and>
   (prepare_marca py_str f = Inr (g, s) \<longrightarrow>
      sentinel_row ''marca'' py_str f g s \<and> exact_sentinel s \<and> int_ids g)"
  using prepare_dimension_sentinel [of "''categoria''" py_str f g s]
    prepare_dimension_sentinel [of "''marca''" py_str f g s]
    prepare_dimension_exact [of "''categoria''" py_str f g s]
    prepare_dimension_exact [of "''marca''" py_str f g s]
    prepare_dimension_int_ids [of "''categoria''" py_str f g s]
    prepare_dimension_int_ids [of "''marca''" py_str f g s]
  by (simp add: prepare_categoria_def prepare_marca_def)

theorem prepare_dimension_other_row_witness:
  "sentinel_row ''categoria'' render_none
     (frame_of [''id'', ''categoria''] [[Num 5, Txt ''a''], [NA, Txt '' b ''], [Num 5, Txt ''A '']])
     (frame_of [''id'', ''categoria'']
        [[Num 5, Txt ''A''], [Num 6, Txt ''B''], [Num 6, Txt ''OTHER'']]) 6"
proof -
  have 1: "prepare_categoria render_none
          (frame_of [''id'', ''categoria'']
             [[Num 5, Txt ''a''], [NA, Txt '' b ''], [Num 5, Txt ''A '']]) =
        Inr (frame_of [''id'', ''categoria'']
               [[Num 5, Txt ''A''], [Num 6, Txt ''B''], [Num 6, Txt ''OTHER'']], 6)"
    by code_simp
  have 2: "exact_ids (frame_of [''id'', ''categoria'']
             [[Num 5, Txt ''a''], [NA, Txt '' b ''], [Num 5, Txt ''A '']])"
    by code_simp
  show ?thesis
    using prepare_dimension_other_row 1 2 by blast
qed

text \<open>
  The claim as stated fails: a row with a missing id receives the sentinel id, so the
  OTHER row shares its id; and two input rows with different ids whose labels both
  normalise to OTHER are both kept.
\<close>

theorem prepare_categoria_other_not_unique:
  "prepare_categoria render_none (frame_of [''id'', ''categoria''] [[NA, Txt ''foo'']]) =
     Inr (frame_of [''id'', ''categoria''] [[Num 1, Txt ''FOO''], [Num 1, Txt ''OTHER'']], 1) \<and>
   prepare_categoria render_none
       (frame_of [''id'', ''categoria''] [[Num 1, Txt ''other''], [Num 2, Txt ''Other'']]) =
     Inr (frame_of [''id'', ''categoria'']
            [[Num 1, Txt ''OTHER''], [Num 2, Txt ''OTHER'']], 1)"
  by code_simp

text \<open>
  C7, as amended. For an input table whose numeric ids are below \<open>2^53\<close> in absolute
  value: applying prepare_categoria (prepare_marca) to the table it returned gives the
  same sentinel id and the same table with repeated (id, label) pairs removed, first
  occurrences kept; no OTHER row is appended and no id changes. The table is returned
  identical when it holds no two rows with the same id and label.
\<close>

theorem prepare_dimension_rerun:
  "exact_ids f \<longrightarrow>
   (prepare_categoria py_str f = Inr (g, s) \<longrightarrow>
      prepare_categoria py_str g = Inr (drop_duplicates [''id'', ''categoria''] g, s) \<and>
      (distinct (map (\<lambda>r. [get r ''id'', get r ''categoria'']) (rows g)) \<longrightarrow>
         prepare_categoria py_str g = Inr (g, s))) \<and>
   (prepare_marca py_str f = Inr (g, s) \<longrightarrow>
      prepare_marca py_str g = Inr (drop_duplicates [''id'', ''marca''] g, s) \<and>
      (distinct (map (\<lambda>r. [get r ''id'', get r ''marca'']) (rows g)) \<longrightarrow>
         prepare_marca py_str g = Inr (g, s)))"
  using prepare_dimension_twice [of "''categoria''" py_str f g s]
    prepare_dimension_twice [of "''marca''" py_str f g s]
    drop_duplicates_distinct [of "''categoria''" g] drop_duplicates_distinct [of "''marca''" g]
  by (simp add: prepare_categoria_def prepare_marca_def)

theorem prepare_dimension_rerun_witness:
  "prepare_marca render_none
     (frame_of [''id'', ''marca'']
        [[Num 5, Txt ''A''], [Num 3, Txt ''B''], [Num 6, Txt ''OTHER'']]) =
   Inr (frame_of [''id'', ''marca'']
          [[Num 5, Txt ''A''], [Num 3, Txt ''B''], [Num 6, Txt ''OTHER'']], 6)"
proof -
  let ?f = "frame_of [''id'', ''marca''] [[Num 5, Txt ''a''], [Num 3, Txt '' b '']]"
  let ?g = "frame_of [''id'', ''marca'']
              [[Num 5, Txt ''A''], [Num 3, Txt ''B''], [Num 6, Txt ''OTHER'']]"
  have 1: "prepare_marca render_none ?f = Inr (?g, 6)"
    by code_simp
  have 2: "distinct (map (\<lambda>r. [get r ''id'', get r ''marca'']) (rows ?g))"
    by (simp add: frame_of_def get_def)
  have 3: "exact_ids ?f"
    by code_simp
  show ?thesis
    using prepare_dimension_rerun [of ?f render_none ?g 6] 1 2 3 by blast
qed

text \<open>
  The claim as stated fails: a row with a missing id takes the sentinel id after the
  duplicates were dropped, so the returned table can repeat a row, and the second run
  drops it.
\<close>

theorem prepare_categoria_not_idempotent:
  "prepare_categoria render_none
       (frame_of [''id'', ''categoria'']
          [[Num 5, Txt ''other''], [NA, Txt ''foo''], [Num 5, Txt ''foo'']]) =
     Inr (frame_of [''id'', ''categoria'']
            [[Num 5, Txt ''OTHER''], [Num 5, Txt ''FOO''], [Num 5, Txt ''FOO'']], 5) \<and>
   prepare_categoria render_none
       (frame_of [''id'', ''categoria'']
          [[Num 5, Txt ''OTHER''], [Num 5, Txt ''FOO''], [Num 5, Txt ''FOO'']]) =
     Inr (frame_of [''id'', ''categoria'']
            [[Num 5, Txt ''OTHER''], [Num 5, Txt ''FOO'']], 5)"
  by code_simp

section \<open>Properties of prepare_events\<close>

lemma map_of_dropped: "c \<in> set cs \<Longrightarrow> map_of (filter (\<lambda>kv. fst kv \<notin> set cs) r) c = None"
  by (induction r) auto

lemma map_of_filter_None: "map_of r c = None \<Longrightarrow> map_of (filter P r) c = None"
  by (induction r) (auto split: if_splits)

lemma lacks_drop_columns: "c \<in> set cs \<Longrightarrow> lacks_column (drop_columns cs f) c"
  by (simp add: lacks_column_def drop_columns_def list_all_iff map_of_dropped)

lemma lacks_drop_columns_keep: "lacks_column f c \<Longrightarrow> lacks_column (drop_columns cs f) c"
  by (simp add: lacks_column_def drop_columns_def list_all_iff map_of_filter_None)

lemma lacks_drop_duplicates: "lacks_column f c \<Longrightarrow> lacks_column (drop_duplicates ks f) c"
  using drop_dups_subset [of "\<lambda>r. map (get r) ks" "[]" "rows f"]
  by (auto simp: lacks_column_def drop_duplicates_def list_all_iff)

lemma lacks_assign: "c \<noteq> c' \<Longrightarrow> lacks_column f c \<Longrightarrow> lacks_column (assign c' v f) c"
  by (auto simp: lacks_column_def assign_def add_col_def list_all_iff map_of_put_other)

lemma length_drop_dups:
  "length (drop_dups key seen xs) = card (key ` set xs - set seen)"
proof (induction xs arbitrary: seen)
  case Nil
  show ?case by simp
next
  case (Cons a xs)
  show ?case
  proof (cases "key a \<in> set seen")
    case True
    then have "key ` set (a # xs) - set seen = key ` set xs - set seen" by auto
    with True Cons.IH show ?thesis by simp
  next
    case False
    have "key ` set (a # xs) - set seen = insert (key a) (key ` set xs - set (key a # seen))"
      using False by auto
    moreover have "key a \<notin> key ` set xs - set (key a # seen)" by simp
    ultimately have "card (key ` set (a # xs) - set seen) =
        Suc (card (key ` set xs - set (key a # seen)))"
      by (simp add: card_insert_if)
    with False Cons.IH show ?thesis by simp
  qed
qed

lemma prepare_events_rows:
  assumes "prepare_events to_datetime py_str events = Inr out"
  shows "out = assign ''event'' (\<lambda>r. Txt (upper (astype_str py_str (get r ''event''))))
           (drop_columns [''transactionid'']
              (drop_duplicates (columns (events_before_dedup to_datetime events))
                 (events_before_dedup to_datetime events)))"
  using assms
  by (simp add: prepare_events_def events_before_dedup_def Let_def split: if_splits)

lemma drop_dups_distinct_keys:
  "distinct (map key (drop_dups key seen xs)) \<and>
   (\<forall>x \<in> set (drop_dups key seen xs). key x \<notin> set seen)"
proof (induction xs arbitrary: seen)
  case Nil
  show ?case by simp
next
  case (Cons a xs)
  show ?case
  proof (cases "key a \<in> set seen")
    case True
    with Cons.IH [of seen] show ?thesis by simp
  next
    case False
    with Cons.IH [of "key a # seen"] show ?thesis by auto
  qed
qed

lemma drop_dups_image: "key ` set (drop_dups key [] xs) = key ` set xs"
proof
  show "key ` set (drop_dups key [] xs) \<subseteq> key ` set xs"
    using drop_dups_subset [of key "[]" xs] by auto
  show "key ` set xs \<subseteq> key ` set (drop_dups key [] xs)"
    using drop_dups_keys [of _ xs key "[]"] by auto
qed

lemma get_dropped:
  "get (filter (\<lambda>kv. fst kv \<noteq> k) r) c = (if c = k then NA else get r c)"
  by (induction r) (auto simp: get_def)

lemma get_event_row:
  "get (event_row py_str r) c =
     (if c = ''event'' then Txt (upper (astype_str py_str (get r ''event'')))
      else if c = ''transactionid'' then NA else get r c)"
  by (simp add: event_row_def Let_def get_put get_dropped)

text \<open>
  C2, as amended. Whenever prepare_events returns, (a) neither a timestamp nor a
  transactionid column is in the output, and (b) duplicates are removed after the
  timestamp column is dropped and before the transactionid column is: the output rows
  are, in order, the rows kept by that removal, each without its transactionid and with
  event in upper case; the kept rows are rows of the table with fecha added and timestamp
  dropped, no two of them have the same combination of values of its columns (the
  transactionid column included), and every combination found in that table is the
  combination of a kept row, so the output has exactly one row for each. Two kept rows
  that differ in transactionid only give two output rows that are equal in every column.
\<close>

theorem prepare_events_columns:
  "prepare_events to_datetime py_str events = Inr out \<longrightarrow>
     lacks_column out ''timestamp'' \<and> lacks_column out ''transactionid'' \<and>
     (let b = events_before_dedup to_datetime events;
          kept = rows (drop_duplicates (columns b) b)
      in rows out = map (event_row py_str) kept \<and>
         set kept \<subseteq> set (rows b) \<and>
         distinct (map (row_values b) kept) \<and>
         row_values b ` set kept = row_values b ` set (rows b) \<and>
         length (rows out) = card (row_values b ` set (rows b)) \<and>
         (\<forall>x \<in> set kept. \<forall>y \<in> set kept.
            (\<forall>c. c \<noteq> ''transactionid'' \<longrightarrow> get x c = get y c) \<longrightarrow>
            (\<forall>c. get (event_row py_str x) c = get (event_row py_str y) c)))"
proof
  assume a: "prepare_events to_datetime py_str events = Inr out"
  let ?b = "events_before_dedup to_datetime events"
  let ?kept = "rows (drop_duplicates (columns ?b) ?b)"
  note out = prepare_events_rows [OF a]
  have k: "?kept = drop_dups (row_values ?b) [] (rows ?b)"
    by (simp add: drop_duplicates_def row_values_def[abs_def])
  have "lacks_column ?b ''timestamp''"
    unfolding events_before_dedup_def by (rule lacks_drop_columns) simp
  then have 1: "lacks_column out ''timestamp''"
    unfolding out
    by (intro lacks_assign lacks_drop_columns_keep lacks_drop_duplicates) simp_all
  have 2: "lacks_column out ''transactionid''"
    unfolding out by (intro lacks_assign lacks_drop_columns) simp_all
  have "rows out = map (event_row py_str) (drop_dups (row_values ?b) [] (rows ?b))"
    unfolding out
    by (simp add: assign_def drop_columns_def drop_duplicates_def event_row_def Let_def comp_def
        row_values_def[abs_def])
  then have 3: "rows out = map (event_row py_str) ?kept"
    unfolding k .
  have 4: "set ?kept \<subseteq> set (rows ?b)"
    unfolding k by (rule drop_dups_subset)
  have 5: "distinct (map (row_values ?b) ?kept)"
    unfolding k using drop_dups_distinct_keys [of "row_values ?b" "[]" "rows ?b"] by simp
  have 6: "row_values ?b ` set ?kept = row_values ?b ` set (rows ?b)"
    unfolding k by (rule drop_dups_image)
  have 7: "length (rows out) = card (row_values ?b ` set (rows ?b))"
    unfolding 3 unfolding k by (simp add: length_drop_dups)
  have 8: "\<forall>x \<in> set ?kept. \<forall>y \<in> set ?kept.
            (\<forall>c. c \<noteq> ''transactionid'' \<longrightarrow> get x c = get y c) \<longrightarrow>
            (\<forall>c. get (event_row py_str x) c = get (event_row py_str y) c)"
    by (simp add: get_event_row)
  show "lacks_column out ''timestamp'' \<and> lacks_column out ''transactionid'' \<and>
     (let b = events_before_dedup to_datetime events;
          kept = rows (drop_duplicates (columns b) b)
      in rows out = map (event_row py_str) kept \<and>
         set kept \<subseteq> set (rows b) \<and>
         distinct (map (row_values b) kept) \<and>
         row_values b ` set kept = row_values b ` set (rows b) \<and>
         length (rows out) = card (row_values b ` set (rows b)) \<and>
         (\<forall>x \<in> set kept. \<forall>y \<in> set kept.
            (\<forall>c. c \<noteq> ''transactionid'' \<longrightarrow> get x c = get y c) \<longrightarrow>
            (\<forall>c. get (event_row py_str x) c = get (event_row py_str y) c)))"
    unfolding Let_def
    by (intro conjI) (fact 1 2 3 4 5 6 7 8)+
qed

theorem prepare_events_columns_witness:
  "rows (frame_of [''visitorid'', ''event'', ''fecha'']
        [[Num 1, Txt ''VIEW'', Num 1000], [Num 1, Txt ''VIEW'', Num 1000],
         [Num 2, Txt ''VIEW'', Num 1000]]) =
   map (event_row render_none)
     (rows (frame_of [''visitorid'', ''event'', ''transactionid'', ''fecha'']
        [[Num 1, Txt ''view'', Num 7, Num 1000], [Num 1, Txt ''view'', Num 8, Num 1000],
         [Num 2, Txt ''view'', NA, Num 1000]]))"
proof -
  let ?e = "frame_of [''timestamp'', ''visitorid'', ''event'', ''transactionid'']
             [[Num 1000, Num 1, Txt ''view'', Num 7],
              [Num 1000, Num 1, Txt ''view'', Num 8],
              [Num 1000, Num 1, Txt ''view'', Num 7],
              [Num 1000, Num 2, Txt ''view'', NA]]"
  have 1: "prepare_events ms_count render_none ?e =
        Inr (frame_of [''visitorid'', ''event'', ''fecha'']
               [[Num 1, Txt ''VIEW'', Num 1000], [Num 1, Txt ''VIEW'', Num 1000],
                [Num 2, Txt ''VIEW'', Num 1000]])"
    by code_simp
  have 2: "rows (drop_duplicates (columns (events_before_dedup ms_count ?e))
                   (events_before_dedup ms_count ?e)) =
           rows (frame_of [''visitorid'', ''event'', ''transactionid'', ''fecha'']
        [[Num 1, Txt ''view'', Num 7, Num 1000], [Num 1, Txt ''view'', Num 8, Num 1000],
         [Num 2, Txt ''view'', NA, Num 1000]])"
    by code_simp
  note t = prepare_events_columns [of ms_count render_none ?e, THEN mp, OF 1]
  note r = t [unfolded Let_def, THEN conjunct2, THEN conjunct2, THEN conjunct1]
  show ?thesis
    using r unfolding 2 .
qed

text \<open>
  The claim as stated fails in its part (b): two raw rows that differ in transactionid
  only are both kept, and come out as two equal rows.
\<close>

theorem prepare_events_keeps_transaction_duplicates:
  "prepare_events ms_count render_none
     (frame_of [''timestamp'', ''visitorid'', ''itemid'', ''event'', ''transactionid'']
        [[Num 1000, Num 1, Num 2, Txt ''view'', Num 7],
         [Num 1000, Num 1, Num 2, Txt ''view'', Num 8]]) =
   Inr (frame_of [''visitorid'', ''itemid'', ''event'', ''fecha'']
          [[Num 1, Num 2, Txt ''VIEW'', Num 1000],
           [Num 1, Num 2, Txt ''VIEW'', Num 1000]])"
  by code_simp

section \<open>Properties of prepare_cliente\<close>

lemma get_filter_keep: "c \<notin> set cs \<Longrightarrow> get (filter (\<lambda>kv. fst kv \<notin> set cs) r) c = get r c"
proof -
  assume "c \<notin> set cs"
  then have "map_of (filter (\<lambda>kv. fst kv \<notin> set cs) r) c = map_of r c"
    by (induction r) auto
  then show ?thesis by (simp add: get_def)
qed

lemma get_cast_id_other: "c \<noteq> ''id'' \<Longrightarrow> get (cast_id s r) c = get r c"
  by (simp add: cast_id_def get_put)

lemma rows_assign: "rows (assign c v f) = map (\<lambda>r. put c (v r) r) (rows f)"
  by (simp add: assign_def)

lemma columns_assign: "columns (assign c v f) = add_col c (columns f)"
  by (simp add: assign_def)

lemma has_col_assign: "has_col (assign c v f) c' = (c' = c \<or> has_col f c')"
  by (auto simp: has_col_def assign_def add_col_def)

lemma has_col_drop: "has_col (drop_columns cs f) c = (c \<notin> set cs \<and> has_col f c)"
  by (auto simp: has_col_def drop_columns_def)

lemma rows_drop: "rows (drop_columns cs f) = map (filter (\<lambda>kv. fst kv \<notin> set cs)) (rows f)"
  by (simp add: drop_columns_def)

lemma rows_upper_if_present:
  "rows (upper_if_present py_str c f) =
     (if has_col f c then map (\<lambda>r. put c (str_upper py_str c r) r) (rows f) else rows f)"
  by (simp add: upper_if_present_def rows_assign)

lemma has_col_upper_if_present: "has_col (upper_if_present py_str c f) c' = has_col f c'"
  by (auto simp: upper_if_present_def has_col_assign)

lemma prepare_cliente_core:
  assumes "prepare_cliente today parse_mdY_func py_str cliente = Inr out"
  shows "\<exists>c7. rows c7 = map (cliente_row today parse_mdY_func py_str) (rows (cliente_kept cliente)) \<and>
           (has_col c7 ''genero'' = has_col (cliente_kept cliente) ''genero'') \<and>
           list_all (\<lambda>r. is_datetime (get r ''nacimiento'')) (rows c7) \<and>
           out = upper_if_present py_str ''ciudad''
                   (upper_if_present py_str ''idioma''
                     (upper_if_present py_str ''empresa''
                       (if has_col c7 ''genero''
                        then assign ''genero'' (\<lambda>r. replace_genero (get r ''genero''))
                               (assign ''genero'' (str_upper py_str ''genero'') c7)
                        else c7)))"
proof -
  let ?c2 = "cliente_kept cliente"
  let ?c3 = "drop_columns [''apellido''] (assign ''nombre'' (\<lambda>r. Txt (full_name py_str r)) ?c2)"
  let ?c4 = "\<lparr>columns = add_col ''id'' (columns ?c3), rows = map (cast_id 0) (rows ?c3)\<rparr>"
  let ?c5 = "assign ''nacimiento'' (\<lambda>r. parse_mdY_func (get r ''nacimiento'')) ?c4"
  let ?c6 = "assign ''edad'' (\<lambda>r. age_years today (get r ''nacimiento'')) ?c5"
  let ?c7 = "assign ''nombre'' (str_upper py_str ''nombre'') ?c6"
  have ok: "\<not> list_ex (\<lambda>r. \<not> is_datetime (get r ''nacimiento'')) (rows ?c5)"
    and out: "out = upper_if_present py_str ''ciudad''
                   (upper_if_present py_str ''idioma''
                     (upper_if_present py_str ''empresa''
                       (if has_col ?c7 ''genero''
                        then assign ''genero'' (\<lambda>r. replace_genero (get r ''genero''))
                               (assign ''genero'' (str_upper py_str ''genero'') ?c7)
                        else ?c7)))"
    using assms
    by (simp_all add: prepare_cliente_def cliente_kept_def Let_def safe_int_cast_fill
        cast_rows[simplified] split: if_splits)
  have r7: "rows ?c7 = map (cliente_row today parse_mdY_func py_str) (rows ?c2)"
    by (simp add: rows_assign rows_drop cliente_row_def Let_def comp_def)
  have h7: "has_col ?c7 ''genero'' = has_col ?c2 ''genero''"
    by (auto simp: has_col_def columns_assign drop_columns_def add_col_def)
  have d7: "list_all (\<lambda>r. is_datetime (get r ''nacimiento'')) (rows ?c7)"
    using ok by (simp add: rows_assign list_all_iff list_ex_iff get_put)
  show ?thesis
    using r7 h7 d7 out by blast
qed

lemma edad_rule_put:
  "c \<noteq> ''nacimiento'' \<Longrightarrow> c \<noteq> ''edad'' \<Longrightarrow> edad_rule today (put c v r) = edad_rule today r"
  by (simp add: edad_rule_def get_put split: cell.splits)

lemma edad_rule_cliente_row:
  assumes "is_datetime (get (cliente_row today parse_mdY_func py_str r0) ''nacimiento'')"
  shows "edad_rule today (cliente_row today parse_mdY_func py_str r0)"
  using assms
  by (auto simp: cliente_row_def Let_def edad_rule_def get_put age_years_def is_datetime_def
      split: cell.splits)

lemma get_filter_other: "c \<noteq> c' \<Longrightarrow> get (filter (\<lambda>kv. fst kv \<noteq> c') r) c = get r c"
  using get_filter_keep [of c "[c']" r] by simp

lemma upper_nan: "upper ''nan'' = ''NAN''"
  by code_simp

lemma nacimiento_cliente_row:
  "get (cliente_row today parse_mdY_func py_str r0) ''nacimiento'' =
   parse_mdY_func (get r0 ''nacimiento'')"
  by (simp add: cliente_row_def Let_def get_put get_cast_id_other get_filter_other)

lemma genero_cliente_row:
  "get (cliente_row today parse_mdY_func py_str r0) ''genero'' = get r0 ''genero''"
  by (simp add: cliente_row_def Let_def get_put get_cast_id_other get_filter_other)

lemma replace_genero_upper:
  "replace_genero (str_upper py_str ''genero'' r) = genero_rule py_str (get r ''genero'')"
  by (simp add: replace_genero_def str_upper_def genero_rule_def Let_def)

lemma genero_rule_present: "\<not> isna (genero_rule py_str c)"
  by (simp add: genero_rule_def Let_def isna_def)

lemma genero_rule_missing: "genero_rule py_str NA = Txt ''NAN''"
  by (simp add: genero_rule_def Let_def astype_str_def upper_nan)

lemma edad_rule_isna: "edad_rule today r \<Longrightarrow> isna (get r ''edad'') = isna (get r ''nacimiento'')"
  by (auto simp: edad_rule_def isna_def split: cell.splits)

text \<open>
  C9. Whenever prepare_cliente returns, in every row of its output edad is missing exactly
  when nacimiento is missing, and when nacimiento is a date edad is the floor of the
  number of days from nacimiento to today divided by 365.25; nacimiento itself is what
  the date parser made of the input cell.
\<close>

theorem prepare_cliente_edad:
  "prepare_cliente today parse_mdY_func py_str cliente = Inr out \<longrightarrow>
     list_all (\<lambda>r. isna (get r ''edad'') = isna (get r ''nacimiento'') \<and> edad_rule today r)
       (rows out) \<and>
     map (\<lambda>r. get r ''nacimiento'') (rows out) =
       map (\<lambda>r. parse_mdY_func (get r ''nacimiento'')) (rows (cliente_kept cliente))"
proof
  assume a: "prepare_cliente today parse_mdY_func py_str cliente = Inr out"
  from prepare_cliente_core [OF a] obtain c7
    where r7: "rows c7 = map (cliente_row today parse_mdY_func py_str) (rows (cliente_kept cliente))"
      and d7: "list_all (\<lambda>r. is_datetime (get r ''nacimiento'')) (rows c7)"
      and out: "out = upper_if_present py_str ''ciudad''
                   (upper_if_present py_str ''idioma''
                     (upper_if_present py_str ''empresa''
                       (if has_col c7 ''genero''
                        then assign ''genero'' (\<lambda>r. replace_genero (get r ''genero''))
                               (assign ''genero'' (str_upper py_str ''genero'') c7)
                        else c7)))"
    by blast
  have e7: "list_all (edad_rule today) (rows c7)"
    using d7 unfolding r7 by (simp add: list_all_iff edad_rule_cliente_row)
  have e: "list_all (edad_rule today) (rows out)"
    using e7 unfolding out
    by (simp add: rows_upper_if_present rows_assign list_all_iff edad_rule_put)
  have n: "map (\<lambda>r. get r ''nacimiento'') (rows out) =
           map (\<lambda>r. parse_mdY_func (get r ''nacimiento'')) (rows (cliente_kept cliente))"
    unfolding out
    by (simp add: rows_upper_if_present rows_assign r7 comp_def get_put nacimiento_cliente_row)
  from e n show "list_all (\<lambda>r. isna (get r ''edad'') = isna (get r ''nacimiento'') \<and> edad_rule today r)
       (rows out) \<and>
     map (\<lambda>r. get r ''nacimiento'') (rows out) =
       map (\<lambda>r. parse_mdY_func (get r ''nacimiento'')) (rows (cliente_kept cliente))"
    by (auto simp: list_all_iff edad_rule_isna)
qed

theorem prepare_cliente_edad_witness:
  "list_all (\<lambda>r. isna (get r ''edad'') = isna (get r ''nacimiento'') \<and> edad_rule 20760 r)
     (rows (frame_of [''id'', ''nombre'', ''nacimiento'', ''genero'', ''edad'']
        [[Num 1, Txt ''ANA LI'', Date 2000 3 1, Txt ''FEMALE'', Num 26],
         [Num 0, Txt ''LI'', NA, Txt ''NAN'', NA],
         [Num 2, Txt ''BO'', Date 2029 1 2, Txt '' M'', Num (-3)]]))"
proof -
  have "prepare_cliente 20760 parse_mdY_default render_none
          (frame_of [''id'', ''nombre'', ''apellido'', ''nacimiento'', ''genero'', ''nit'']
             [[Num 1, Txt '' ana '', Txt ''li'', Txt ''3/1/00'', Txt ''f'', Num 3],
              [NA, NA, Txt ''li'', Txt ''bad'', NA, Num 3],
              [Num 2, Txt ''bo'', NA, Txt ''1/2/29'', Txt '' m'', Num 3]]) =
        Inr (frame_of [''id'', ''nombre'', ''nacimiento'', ''genero'', ''edad'']
               [[Num 1, Txt ''ANA LI'', Date 2000 3 1, Txt ''FEMALE'', Num 26],
                [Num 0, Txt ''LI'', NA, Txt ''NAN'', NA],
                [Num 2, Txt ''BO'', Date 2029 1 2, Txt '' M'', Num (-3)]])"
    by code_simp
  then show ?thesis
    using prepare_cliente_edad by blast
qed

text \<open>
  C10. Whenever prepare_cliente returns a table with a genero column, no value of that
  column is missing: each is the uppercased string form of the input value of its row,
  with exactly the uppercased values F and M replaced by FEMALE and MALE. A missing
  input comes out as the text NAN, and a value that is F or M only after trimming is
  not replaced.
\<close>

theorem prepare_cliente_genero:
  "prepare_cliente today parse_mdY_func py_str cliente = Inr out \<and> has_col out ''genero'' \<longrightarrow>
     map (\<lambda>r. get r ''genero'') (rows out) =
       map (\<lambda>r. genero_rule py_str (get r ''genero'')) (rows (cliente_kept cliente)) \<and>
     \<not> list_ex (\<lambda>r. isna (get r ''genero'')) (rows out) \<and>
     genero_rule py_str NA = Txt ''NAN'' \<and>
     genero_rule py_str (Txt ''f'') = Txt ''FEMALE'' \<and>
     genero_rule py_str (Txt ''M'') = Txt ''MALE'' \<and>
     genero_rule py_str (Txt '' f'') = Txt '' F''"
proof
  assume a: "prepare_cliente today parse_mdY_func py_str cliente = Inr out \<and> has_col out ''genero''"
  from prepare_cliente_core [of today parse_mdY_func py_str cliente out] a obtain c7
    where r7: "rows c7 = map (cliente_row today parse_mdY_func py_str) (rows (cliente_kept cliente))"
      and out: "out = upper_if_present py_str ''ciudad''
                   (upper_if_present py_str ''idioma''
                     (upper_if_present py_str ''empresa''
                       (if has_col c7 ''genero''
                        then assign ''genero'' (\<lambda>r. replace_genero (get r ''genero''))
                               (assign ''genero'' (str_upper py_str ''genero'') c7)
                        else c7)))"
    by blast
  have h: "has_col c7 ''genero''"
    using a unfolding out by (simp add: has_col_upper_if_present split: if_splits)
  have g: "map (\<lambda>r. get r ''genero'') (rows out) =
       map (\<lambda>r. genero_rule py_str (get r ''genero'')) (rows (cliente_kept cliente))"
    unfolding out using h
    by (simp add: rows_upper_if_present rows_assign r7 comp_def get_put replace_genero_upper
        genero_cliente_row)
  have "\<not> list_ex isna (map (\<lambda>r. get r ''genero'') (rows out))"
    unfolding g by (simp add: list_ex_iff genero_rule_present)
  then have m: "\<not> list_ex (\<lambda>r. isna (get r ''genero'')) (rows out)"
    by (simp add: list_ex_iff)
  have ex: "genero_rule py_str (Txt ''f'') = Txt ''FEMALE''"
    "genero_rule py_str (Txt ''M'') = Txt ''MALE''"
    "genero_rule py_str (Txt '' f'') = Txt '' F''"
    by code_simp+
  from g m ex genero_rule_missing
  show "map (\<lambda>r. get r ''genero'') (rows out) =
       map (\<lambda>r. genero_rule py_str (get r ''genero'')) (rows (cliente_kept cliente)) \<and>
     \<not> list_ex (\<lambda>r. isna (get r ''genero'')) (rows out) \<and>
     genero_rule py_str NA = Txt ''NAN'' \<and>
     genero_rule py_str (Txt ''f'') = Txt ''FEMALE'' \<and>
     genero_rule py_str (Txt ''M'') = Txt ''MALE'' \<and>
     genero_rule py_str (Txt '' f'') = Txt '' F''"
    by simp
qed

theorem prepare_cliente_genero_witness:
  "map (\<lambda>r. get r ''genero'')
     (rows (frame_of [''id'', ''nombre'', ''nacimiento'', ''genero'', ''edad'']
        [[Num 1, Txt ''ANA LI'', Date 2000 3 1, Txt ''FEMALE'', Num 26],
         [Num 0, Txt ''LI'', NA, Txt ''NAN'', NA]])) =
   map (\<lambda>r. genero_rule render_none (get r ''genero''))
     (rows (cliente_kept
        (frame_of [''id'', ''nombre'', ''apellido'', ''nacimiento'', ''genero'', ''nit'']
             [[Num 1, Txt '' ana '', Txt ''li'', Txt ''3/1/00'', Txt ''f'', Num 3],
              [NA, NA, Txt ''li'', Txt ''bad'', NA, Num 3]])))"
proof -
  have 1: "prepare_cliente 20760 parse_mdY_default render_none
          (frame_of [''id'', ''nombre'', ''apellido'', ''nacimiento'', ''genero'', ''nit'']
             [[Num 1, Txt '' ana '', Txt ''li'', Txt ''3/1/00'', Txt ''f'', Num 3],
              [NA, NA, Txt ''li'', Txt ''bad'', NA, Num 3]]) =
        Inr (frame_of [''id'', ''nombre'', ''nacimiento'', ''genero'', ''edad'']
               [[Num 1, Txt ''ANA LI'', Date 2000 3 1, Txt ''FEMALE'', Num 26],
                [Num 0, Txt ''LI'', NA, Txt ''NAN'', NA]])"
    by code_simp
  have 2: "has_col (frame_of [''id'', ''nombre'', ''nacimiento'', ''genero'', ''edad'']
               [[Num 1, Txt ''ANA LI'', Date 2000 3 1, Txt ''FEMALE'', Num 26],
                [Num 0, Txt ''LI'', NA, Txt ''NAN'', NA]]) ''genero''"
    by (simp add: has_col_def frame_of_def)
  show ?thesis
    using prepare_cliente_genero 1 2 by blast
qed

section \<open>Properties of merge_events_with_entities\<close>

lemma map_of_project: "map_of (project cs a) c = (if c \<in> set cs then Some (get a c) else None)"
  unfolding project_def by (induction cs) auto

lemma get_append: "get (r @ s) c = (case map_of r c of Some v \<Rightarrow> v | None \<Rightarrow> get s c)"
  by (simp add: get_def map_add_def split: option.splits)

lemma get_project_append:
  "get (project cs a @ s) c = (if c \<in> set cs then get a c else get s c)"
  by (simp add: get_append map_of_project)

lemma map_of_const: "map_of (map (\<lambda>c. (c, v)) cs) c = (if c \<in> set cs then Some v else None)"
  by (induction cs) auto

lemma get_const_append:
  "get (map (\<lambda>c. (c, v)) cs @ s) c = (if c \<in> set cs then v else get s c)"
  by (simp add: get_append map_of_const)

lemma get_rename:
  "c \<noteq> old \<Longrightarrow> c \<noteq> new \<Longrightarrow>
   get (map (\<lambda>kv. (if fst kv = old then new else fst kv, snd kv)) r) c = get r c"
proof -
  assume "c \<noteq> old" "c \<noteq> new"
  then have "map_of (map (\<lambda>kv. (if fst kv = old then new else fst kv, snd kv)) r) c = map_of r c"
    by (induction r) auto
  then show ?thesis by (simp add: get_def)
qed

lemma get_rename_new:
  "new \<notin> fst ` set r \<Longrightarrow>
   get (map (\<lambda>kv. (if fst kv = old then new else fst kv, snd kv)) r) new = get r old"
proof -
  assume "new \<notin> fst ` set r"
  then have "map_of (map (\<lambda>kv. (if fst kv = old then new else fst kv, snd kv)) r) new = map_of r old"
    by (induction r) auto
  then show ?thesis by (simp add: get_def)
qed

lemma events1_rows:
  assumes "plain_names events pe"
    and "merge_events_with_entities events pe cli = Inr (e1, e2, e3)"
  shows "has_col events ''itemid''" "has_col events ''visitorid''" "has_col pe ''id''"
    "''_merge'' \<notin> set (columns events)" "''_merge'' \<notin> set (columns pe)"
    "columns e1 = columns events @ filter (\<lambda>c. c \<noteq> ''id'') (columns pe) @ [''event+producto'']"
    "rows e1 = concat (map (\<lambda>a.
        (let ms = filter (\<lambda>b. get b ''id'' = get a ''itemid'') (rows pe)
         in if ms = []
            then [view_row (columns events) a (map (\<lambda>c. (c, NA)) (columns pe)) ''left_only'']
            else map (\<lambda>b. view_row (columns events) a (project (columns pe) b) ''both'') ms))
        (rows events))"
proof -
  from assms(2) obtain m1 d1 where m1: "merge_left events pe ''itemid'' ''id'' = Inr m1"
    and d1: "drop_column ''id'' m1 = Inr d1"
    and e1: "e1 = rename_column ''_merge'' ''event+producto'' d1"
    and m2: "merge_left events cli ''visitorid'' ''id'' \<noteq> Inl KeyError"
    by (auto simp: merge_events_with_entities_def Let_def split: sum.splits)
  from m1 show h: "has_col events ''itemid''" "has_col pe ''id''"
    "''_merge'' \<notin> set (columns events)" "''_merge'' \<notin> set (columns pe)"
    by (auto simp: merge_left_def has_col_def split: if_splits)
  from m2 show "has_col events ''visitorid''"
    by (auto simp: merge_left_def split: if_splits)
  have sx: "\<And>c. c \<in> set (columns events) \<Longrightarrow> suffix_x (columns pe) c = c"
    using assms(1) by (auto simp: plain_names_def suffix_x_def list_all_iff)
  have sy: "\<And>c. c \<in> set (columns pe) \<Longrightarrow> suffix_y (columns events) c = c"
    using assms(1) by (auto simp: plain_names_def suffix_y_def list_all_iff)
  have lp: "\<And>a. map (\<lambda>c. (suffix_x (columns pe) c, get a c)) (columns events) =
                project (columns events) a"
    unfolding project_def using sx by (intro map_cong) simp_all
  have rp: "\<And>b. map (\<lambda>c. (suffix_y (columns events) c, get b c)) (columns pe) =
                project (columns pe) b"
    unfolding project_def using sy by (intro map_cong) simp_all
  have rm: "map (\<lambda>c. (suffix_y (columns events) c, NA)) (columns pe) =
            map (\<lambda>c. (c, NA)) (columns pe)"
    using sy by (intro map_cong) simp_all
  have lcs: "map (suffix_x (columns pe)) (columns events) = columns events"
    using sx by (intro map_idI) simp
  have rcs: "map (suffix_y (columns events)) (columns pe) = columns pe"
    using sy by (intro map_idI) simp
  have m1': "m1 = \<lparr>columns = columns events @ columns pe @ [''_merge''],
      rows = concat (map (\<lambda>a.
        (let ms = filter (\<lambda>b. get b ''id'' = get a ''itemid'') (rows pe)
         in if ms = []
            then [project (columns events) a @ map (\<lambda>c. (c, NA)) (columns pe) @
                    [(''_merge'', Txt ''left_only'')]]
            else map (\<lambda>b. project (columns events) a @ project (columns pe) b @
                              [(''_merge'', Txt ''both'')]) ms))
        (rows events))\<rparr>"
    using m1 h by (simp add: merge_left_def Let_def lp rp rm lcs rcs has_col_def cong del: if_weak_cong)
  have d1': "d1 = drop_columns [''id''] m1"
    using d1 by (simp add: drop_column_def split: if_splits)
  have nid: "''id'' \<notin> set (columns events)"
    using assms(1) h(2) by (auto simp: plain_names_def list_all_iff has_col_def)
  have f1: "filter (\<lambda>c. c \<noteq> ''id'') (columns events) = columns events"
    using nid by (auto simp: filter_id_conv)
  have f2: "map (\<lambda>c. if c = ''_merge'' then ''event+producto'' else c) (columns events) = columns events"
    using h(3) by (intro map_idI) auto
  have f3: "map (\<lambda>c. if c = ''_merge'' then ''event+producto'' else c)
              (filter (\<lambda>c. c \<noteq> ''id'') (columns pe)) = filter (\<lambda>c. c \<noteq> ''id'') (columns pe)"
    using h(4) by (intro map_idI) auto
  show "columns e1 = columns events @ filter (\<lambda>c. c \<noteq> ''id'') (columns pe) @ [''event+producto'']"
    by (simp add: e1 d1' m1' rename_column_def drop_columns_def f1 f2 f3)
  show "rows e1 = concat (map (\<lambda>a.
        (let ms = filter (\<lambda>b. get b ''id'' = get a ''itemid'') (rows pe)
         in if ms = []
            then [view_row (columns events) a (map (\<lambda>c. (c, NA)) (columns pe)) ''left_only'']
            else map (\<lambda>b. view_row (columns events) a (project (columns pe) b) ''both'') ms))
        (rows events))"
    unfolding e1 d1' m1'
    by (simp add: rename_column_def drop_columns_def map_concat comp_def Let_def)
      (intro arg_cong [where f = concat] map_cong refl, simp add: view_row_def)
qed

lemma merge_outer_rows:
  assumes "merge_outer l r ks = Inr m"
    and "\<forall>c \<in> set (columns r). c \<in> set ks \<or> c \<notin> set (columns l)"
  shows "\<forall>x \<in> set (rows m).
           (\<exists>a \<in> set (rows l). \<exists>X. x = project (columns l) a @ X) \<or>
           (\<exists>b Y. x = map (\<lambda>c. (c, if c \<in> set ks then get b c else NA)) (columns l) @ Y)"
    and "\<forall>a \<in> set (rows l). \<exists>X. project (columns l) a @ X \<in> set (rows m)"
proof -
  let ?rc = "filter (\<lambda>c. c \<notin> set ks) (columns r)"
  let ?lname = "\<lambda>c. if c \<in> set ks then c else suffix_x ?rc c"
  have ln: "\<And>c. c \<in> set (columns l) \<Longrightarrow> ?lname c = c"
    using assms(2) by (auto simp: suffix_x_def)
  have lp: "\<And>a. map (\<lambda>c. (?lname c, get a c)) (columns l) = project (columns l) a"
    unfolding project_def using ln by (intro map_cong) simp_all
  have lq: "\<And>b. map (\<lambda>c. (?lname c, if c \<in> set ks then get b c else NA)) (columns l) =
                map (\<lambda>c. (c, if c \<in> set ks then get b c else NA)) (columns l)"
    using ln by (intro map_cong) simp_all
  have m: "rows m =
      concat (map (\<lambda>a.
        (let ms = filter (\<lambda>b. list_all (\<lambda>k. get a k = get b k) ks) (rows r)
         in if ms = [] then [project (columns l) a @ map (\<lambda>c. (suffix_y (columns l) c, NA)) ?rc]
            else map (\<lambda>b. project (columns l) a @
                             map (\<lambda>c. (suffix_y (columns l) c, get b c)) ?rc) ms)) (rows l)) @
      map (\<lambda>b. map (\<lambda>c. (c, if c \<in> set ks then get b c else NA)) (columns l) @
                 map (\<lambda>c. (suffix_y (columns l) c, get b c)) ?rc)
        (filter (\<lambda>b. \<not> list_ex (\<lambda>a. list_all (\<lambda>k. get a k = get b k) ks) (rows l)) (rows r))"
    using assms(1)
    by (auto simp: merge_outer_def Let_def lp lq split: if_splits cong del: if_weak_cong)
  show "\<forall>x \<in> set (rows m).
           (\<exists>a \<in> set (rows l). \<exists>X. x = project (columns l) a @ X) \<or>
           (\<exists>b Y. x = map (\<lambda>c. (c, if c \<in> set ks then get b c else NA)) (columns l) @ Y)"
    unfolding m by (auto simp: Let_def split: if_splits)
  show "\<forall>a \<in> set (rows l). \<exists>X. project (columns l) a @ X \<in> set (rows m)"
  proof
    fix a assume a: "a \<in> set (rows l)"
    let ?ms = "filter (\<lambda>b. list_all (\<lambda>k. get a k = get b k) ks) (rows r)"
    show "\<exists>X. project (columns l) a @ X \<in> set (rows m)"
    proof (cases "?ms = []")
      case True
      with a have "project (columns l) a @ map (\<lambda>c. (suffix_y (columns l) c, NA)) ?rc \<in> set (rows m)"
        unfolding m by (auto simp: Let_def intro!: bexI[of _ a])
      then show ?thesis by blast
    next
      case False
      then obtain b where b: "b \<in> set ?ms" by (cases ?ms) auto
      with a False
      have "project (columns l) a @ map (\<lambda>c. (suffix_y (columns l) c, get b c)) ?rc \<in> set (rows m)"
        unfolding m by (auto simp: Let_def intro!: bexI[of _ a])
      then show ?thesis by blast
    qed
  qed
qed

lemma map_of_tabulate:
  "map_of (map (\<lambda>c. (c, f c)) cs) c = (if c \<in> set cs then Some (f c) else None)"
  by (induction cs) auto

lemma get_view_row_left:
  assumes "c \<in> set lc" "c \<noteq> ''id''" "c \<noteq> ''_merge''" "c \<noteq> ''event+producto''"
  shows "get (view_row lc a rp tag) c = get a c"
  using assms
  by (simp add: view_row_def get_rename get_filter_other get_project_append
      del: map_append filter_append)

lemma get_view_row_missing:
  assumes "c \<in> set rc" "c \<notin> set lc" "c \<noteq> ''id''" "c \<noteq> ''_merge''"
    "c \<noteq> ''event+producto''"
  shows "get (view_row lc a (map (\<lambda>c. (c, NA)) rc) tag) c = NA"
  using assms
  by (simp add: view_row_def get_rename get_filter_other get_project_append get_const_append
      del: map_append filter_append)

lemma get_view_row_tag:
  assumes "''event+producto'' \<notin> set lc" "''event+producto'' \<notin> fst ` set rp"
    "''_merge'' \<notin> set lc" "''_merge'' \<notin> fst ` set rp"
  shows "get (view_row lc a rp tag) ''event+producto'' = Txt tag"
proof -
  let ?r = "filter (\<lambda>kv. fst kv \<noteq> ''id'') (project lc a @ rp @ [(''_merge'', Txt tag)])"
  have "''event+producto'' \<notin> fst ` set ?r"
    using assms(1,2) by (auto simp: project_def)
  then have "get (view_row lc a rp tag) ''event+producto'' = get ?r ''_merge''"
    unfolding view_row_def using get_rename_new [of "''event+producto''" ?r "''_merge''"]
    by simp
  also have "\<dots> = get (project lc a @ rp @ [(''_merge'', Txt tag)]) ''_merge''"
    by (simp add: get_filter_other del: filter_append)
  also have "\<dots> = Txt tag"
  proof -
    have n: "map_of rp ''_merge'' = None"
      using assms(4) by (simp add: map_of_eq_None_iff)
    have "get (rp @ [(''_merge'', Txt tag)]) ''_merge'' = Txt tag"
      by (simp add: get_append n) (simp add: get_def)
    then show ?thesis using assms(3) by (simp add: get_project_append)
  qed
  finally show ?thesis .
qed

text \<open>
  C8. Let the events table and the enriched product table share no column name and have
  no column called \<open>event+producto\<close>. Whenever merge_events_with_entities returns, every
  row of the Event-Product view whose itemid equals no product id has \<open>left_only\<close> in the
  column \<open>event+producto\<close> and a missing value in every product column; every row of the
  unified fact view with such an itemid has a missing value in every product column; and
  every event row is carried, with its own values, by a row of each of the two views.
\<close>

theorem merge_events_left_only:
  "plain_names events pe \<and> merge_events_with_entities events pe cli = Inr (e1, e2, e3) \<longrightarrow>
     list_all (\<lambda>r. unmatched pe r \<longrightarrow>
                 get r ''event+producto'' = Txt ''left_only'' \<and> product_missing pe r) (rows e1) \<and>
     list_all (\<lambda>r. unmatched pe r \<longrightarrow> product_missing pe r) (rows e3) \<and>
     list_all (\<lambda>a. list_ex (agrees (columns events) a) (rows e1) \<and>
                 list_ex (agrees (columns events) a) (rows e3)) (rows events)"
proof
  assume asm: "plain_names events pe \<and> merge_events_with_entities events pe cli = Inr (e1, e2, e3)"
  then have pn: "plain_names events pe"
    and ok: "merge_events_with_entities events pe cli = Inr (e1, e2, e3)" by simp_all
  note E = events1_rows [OF pn ok]
  let ?lc = "columns events" and ?rc = "columns pe"
  have disj: "\<And>c. c \<in> set ?lc \<Longrightarrow> c \<notin> set ?rc"
    and ep: "''event+producto'' \<notin> set ?lc" "''event+producto'' \<notin> set ?rc"
    using pn by (auto simp: plain_names_def list_all_iff)
  have item: "''itemid'' \<in> set ?lc" and vis: "''visitorid'' \<in> set ?lc" and idr: "''id'' \<in> set ?rc"
    using E(1,2,3) by (simp_all add: has_col_def)
  have lne: "\<And>c. c \<in> set ?lc \<Longrightarrow> c \<noteq> ''id'' \<and> c \<noteq> ''_merge'' \<and> c \<noteq> ''event+producto''"
    using disj idr E(4) ep by auto
  have rne: "\<And>c. c \<in> set ?rc \<Longrightarrow> c \<noteq> ''_merge'' \<and> c \<noteq> ''event+producto'' \<and> c \<notin> set ?lc"
    using disj E(5) ep by auto
  \<comment> \<open>every row of the Event-Product view comes from an event row\<close>
  have from_event: "\<And>r. r \<in> set (rows e1) \<Longrightarrow>
      \<exists>a \<in> set (rows events).
        (filter (\<lambda>b. get b ''id'' = get a ''itemid'') (rows pe) = [] \<and>
           r = view_row ?lc a (map (\<lambda>c. (c, NA)) ?rc) ''left_only'') \<or>
        (\<exists>b \<in> set (rows pe). get b ''id'' = get a ''itemid'' \<and>
           r = view_row ?lc a (project ?rc b) ''both'')"
    unfolding E(7) by (fastforce simp: Let_def split: if_splits)
  have A: "\<And>r. r \<in> set (rows e1) \<Longrightarrow> unmatched pe r \<Longrightarrow>
      get r ''event+producto'' = Txt ''left_only'' \<and> product_missing pe r"
  proof -
    fix r assume r: "r \<in> set (rows e1)" and u: "unmatched pe r"
    from from_event [OF r] obtain a where a: "a \<in> set (rows events)"
      and c: "(filter (\<lambda>b. get b ''id'' = get a ''itemid'') (rows pe) = [] \<and>
           r = view_row ?lc a (map (\<lambda>c. (c, NA)) ?rc) ''left_only'') \<or>
        (\<exists>b \<in> set (rows pe). get b ''id'' = get a ''itemid'' \<and>
           r = view_row ?lc a (project ?rc b) ''both'')" by blast
    have "\<not> (\<exists>b \<in> set (rows pe). get b ''id'' = get a ''itemid'' \<and>
           r = view_row ?lc a (project ?rc b) ''both'')"
    proof
      assume "\<exists>b \<in> set (rows pe). get b ''id'' = get a ''itemid'' \<and>
           r = view_row ?lc a (project ?rc b) ''both''"
      then obtain b where b: "b \<in> set (rows pe)" "get b ''id'' = get a ''itemid''"
        "r = view_row ?lc a (project ?rc b) ''both''" by blast
      have "get r ''itemid'' = get a ''itemid''"
        using item lne [OF item] by (simp add: b(3) get_view_row_left)
      with b(1,2) u show False by (auto simp: unmatched_def list_ex_iff)
    qed
    with c have r': "r = view_row ?lc a (map (\<lambda>c. (c, NA)) ?rc) ''left_only''" by blast
    have t: "get r ''event+producto'' = Txt ''left_only''"
      unfolding r' using ep E(4,5) by (intro get_view_row_tag) (auto simp: image_iff)
    have "\<And>c. c \<in> set ?rc \<Longrightarrow> c \<noteq> ''id'' \<Longrightarrow>
        get (view_row ?lc a (map (\<lambda>c. (c, NA)) ?rc) ''left_only'') c = NA"
      using rne by (intro get_view_row_missing) auto
    then have "product_missing pe r"
      unfolding product_missing_def list_all_iff r' by (auto simp: isna_def)
    with t show "get r ''event+producto'' = Txt ''left_only'' \<and> product_missing pe r" by simp
  qed
  have B: "\<And>a. a \<in> set (rows events) \<Longrightarrow> \<exists>r \<in> set (rows e1). agrees ?lc a r"
  proof -
    fix a assume a: "a \<in> set (rows events)"
    let ?ms = "filter (\<lambda>b. get b ''id'' = get a ''itemid'') (rows pe)"
    have "\<exists>rp tag. view_row ?lc a rp tag \<in> set (rows e1)"
    proof (cases "?ms = []")
      case True
      with a have "view_row ?lc a (map (\<lambda>c. (c, NA)) ?rc) ''left_only'' \<in> set (rows e1)"
        unfolding E(7) by (auto simp: Let_def intro!: bexI[of _ a])
      then show ?thesis by blast
    next
      case False
      then obtain b where "b \<in> set ?ms" by (cases ?ms) auto
      with a False have "view_row ?lc a (project ?rc b) ''both'' \<in> set (rows e1)"
        unfolding E(7) by (auto simp: Let_def intro!: bexI[of _ a])
      then show ?thesis by blast
    qed
    then obtain rp tag where "view_row ?lc a rp tag \<in> set (rows e1)" by blast
    moreover have "agrees ?lc a (view_row ?lc a rp tag)"
      using lne by (simp add: agrees_def list_all_iff get_view_row_left)
    ultimately show "\<exists>r \<in> set (rows e1). agrees ?lc a r" by blast
  qed
  \<comment> \<open>the unified view\<close>
  from ok obtain ev2 where
    mo: "merge_outer e1
           (select_columns
              (filter (\<lambda>c. c \<notin> set (columns e1) \<or> c \<in> set [''visitorid'', ''itemid''])
                 (columns ev2)) ev2)
           [''visitorid'', ''itemid''] = Inr e3"
    by (auto simp: merge_events_with_entities_def Let_def split: sum.splits)
  have sel: "\<forall>c \<in> set (columns (select_columns
              (filter (\<lambda>c. c \<notin> set (columns e1) \<or> c \<in> set [''visitorid'', ''itemid''])
                 (columns ev2)) ev2)).
            c \<in> set [''visitorid'', ''itemid''] \<or> c \<notin> set (columns e1)"
    by (auto simp: select_columns_def)
  note M = merge_outer_rows [OF mo sel]
  have in1: "\<And>c. c \<in> set ?lc \<Longrightarrow> c \<in> set (columns e1)"
    and in2: "\<And>c. c \<in> set ?rc \<Longrightarrow> c \<noteq> ''id'' \<Longrightarrow> c \<in> set (columns e1)"
    by (simp_all add: E(6))
  have C: "\<And>r. r \<in> set (rows e3) \<Longrightarrow> unmatched pe r \<Longrightarrow> product_missing pe r"
  proof -
    fix r assume r: "r \<in> set (rows e3)" and u: "unmatched pe r"
    from M(1) r consider
      (left) r1 X where "r1 \<in> set (rows e1)" "r = project (columns e1) r1 @ X"
      | (right) b Y where
        "r = map (\<lambda>c. (c, if c \<in> set [''visitorid'', ''itemid''] then get b c else NA))
               (columns e1) @ Y"
      by blast
    then show "product_missing pe r"
    proof cases
      case left
      have g: "\<And>c. c \<in> set (columns e1) \<Longrightarrow> get r c = get r1 c"
        by (simp add: left(2) get_project_append)
      have "unmatched pe r1"
        using u g [OF in1 [OF item]] by (simp add: unmatched_def)
      from A [OF left(1) this] have "product_missing pe r1" by simp
      then have p1: "\<And>c. c \<in> set ?rc \<Longrightarrow> c \<noteq> ''id'' \<Longrightarrow> isna (get r1 c)"
        by (auto simp: product_missing_def list_all_iff)
      have "\<And>c. c \<in> set ?rc \<Longrightarrow> c \<noteq> ''id'' \<Longrightarrow> isna (get r c)"
      proof -
        fix c assume c: "c \<in> set ?rc" "c \<noteq> ''id''"
        from g [OF in2 [OF c]] p1 [OF c] show "isna (get r c)" by simp
      qed
      then show ?thesis
        by (auto simp: product_missing_def list_all_iff)
    next
      case right
      have "\<And>c. c \<in> set ?rc \<Longrightarrow> c \<noteq> ''id'' \<Longrightarrow> get r c = NA"
      proof -
        fix c assume c: "c \<in> set ?rc" "c \<noteq> ''id''"
        then have nk: "c \<noteq> ''visitorid''" "c \<noteq> ''itemid''"
          using rne item vis by auto
        have "map_of (map (\<lambda>c. (c, if c \<in> set [''visitorid'', ''itemid''] then get b c else NA))
               (columns e1)) c = Some NA"
          using in2 [OF c] nk by (simp add: map_of_tabulate)
        then show "get r c = NA" by (simp add: right get_append)
      qed
      then show ?thesis by (auto simp: product_missing_def list_all_iff isna_def)
    qed
  qed
  have D: "\<And>a. a \<in> set (rows events) \<Longrightarrow> \<exists>r \<in> set (rows e3). agrees ?lc a r"
  proof -
    fix a assume "a \<in> set (rows events)"
    from B [OF this] obtain r1 where r1: "r1 \<in> set (rows e1)" "agrees ?lc a r1" by blast
    from M(2) r1(1) obtain X where x: "project (columns e1) r1 @ X \<in> set (rows e3)" by blast
    have "agrees ?lc a (project (columns e1) r1 @ X)"
      using r1(2) in1 by (auto simp: agrees_def list_all_iff get_project_append)
    with x show "\<exists>r \<in> set (rows e3). agrees ?lc a r" by blast
  qed
  show "list_all (\<lambda>r. unmatched pe r \<longrightarrow>
                 get r ''event+producto'' = Txt ''left_only'' \<and> product_missing pe r) (rows e1) \<and>
     list_all (\<lambda>r. unmatched pe r \<longrightarrow> product_missing pe r) (rows e3) \<and>
     list_all (\<lambda>a. list_ex (agrees (columns events) a) (rows e1) \<and>
                 list_ex (agrees (columns events) a) (rows e3)) (rows events)"
    using A B C D by (simp add: list_all_iff list_ex_iff)
qed

theorem merge_events_left_only_witness:
  "list_all (\<lambda>r. unmatched (frame_of [''id'', ''nombre'', ''precio''] [[Num 10, Txt ''TV'', Num 5]]) r \<longrightarrow>
               get r ''event+producto'' = Txt ''left_only'' \<and>
               product_missing (frame_of [''id'', ''nombre'', ''precio''] [[Num 10, Txt ''TV'', Num 5]]) r)
     (rows (frame_of [''visitorid'', ''itemid'', ''event'', ''nombre'', ''precio'', ''event+producto'']
        [[Num 1, Num 10, Txt ''VIEW'', Txt ''TV'', Num 5, Txt ''both''],
         [Num 2, Num 99, Txt ''VIEW'', NA, NA, Txt ''left_only'']]))"
proof -
  let ?ev = "frame_of [''visitorid'', ''itemid'', ''event'']
               [[Num 1, Num 10, Txt ''VIEW''], [Num 2, Num 99, Txt ''VIEW'']]"
  let ?pe = "frame_of [''id'', ''nombre'', ''precio''] [[Num 10, Txt ''TV'', Num 5]]"
  let ?cl = "frame_of [''id'', ''nombre'', ''edad''] [[Num 1, Txt ''ANA'', Num 30]]"
  have 1: "plain_names ?ev ?pe"
    by (simp add: plain_names_def frame_of_def)
  have 2: "merge_events_with_entities ?ev ?pe ?cl =
    Inr (frame_of [''visitorid'', ''itemid'', ''event'', ''nombre'', ''precio'', ''event+producto'']
           [[Num 1, Num 10, Txt ''VIEW'', Txt ''TV'', Num 5, Txt ''both''],
            [Num 2, Num 99, Txt ''VIEW'', NA, NA, Txt ''left_only'']],
         frame_of [''visitorid'', ''itemid'', ''event'', ''nombre'', ''edad'', ''event+cliente'']
           [[Num 1, Num 10, Txt ''VIEW'', Txt ''ANA'', Num 30, Txt ''both''],
            [Num 2, Num 99, Txt ''VIEW'', NA, NA, Txt ''left_only'']],
         frame_of [''visitorid'', ''itemid'', ''event'', ''nombre'', ''precio'', ''event+producto'',
                   ''edad'', ''event+cliente'']
           [[Num 1, Num 10, Txt ''VIEW'', Txt ''TV'', Num 5, Txt ''both'', Num 30, Txt ''both''],
            [Num 2, Num 99, Txt ''VIEW'', NA, NA, Txt ''left_only'', NA, Txt ''left_only'']])"
    by code_simp
  show ?thesis
    using merge_events_left_only 1 2 by blast
qed

section \<open>Properties of prepare_producto\<close>

lemma set_col_cast:
  "set_col c (map (\<lambda>i. Num (of_int i)) (map (int_entry v) (map to_numeric (col f c)))) f =
     \<lparr>columns = add_col c (columns f), rows = map (cast_cell c v) (rows f)\<rparr>"
proof -
  have "map (\<lambda>i. Num (of_int i)) (map (int_entry v) (map to_numeric (col f c))) =
        map (\<lambda>r. Num (of_int (int_entry v (get r c)))) (rows f)"
    by (simp add: col_def int_entry_to_numeric comp_def)
  then show ?thesis
    by (simp add: set_col_def map2_same cast_cell_def)
qed

lemma cast_column_rows:
  assumes "cast_column c fv f = Inr g"
  shows "\<exists>v. g = \<lparr>columns = add_col c (columns f), rows = map (cast_cell c v) (rows f)\<rparr> \<and>
             (fv = None \<or> fv = Some v)"
proof (cases fv)
  case None
  with assms have "g = set_col c (map (\<lambda>i. Num (of_int i))
                      (map (int_entry 0) (map to_numeric (col f c)))) f"
    by (auto simp: cast_column_def safe_int_cast_nofill to_numeric_idem comp_def
        split: if_splits)
  then show ?thesis using None set_col_cast by auto
next
  case (Some v)
  with assms have "g = set_col c (map (\<lambda>i. Num (of_int i))
                      (map (int_entry v) (map to_numeric (col f c)))) f"
    by (auto simp: cast_column_def safe_int_cast_fill split: if_splits)
  then show ?thesis using Some set_col_cast by auto
qed

lemma get_cast_cell:
  "get (cast_cell c v r) c' = (if c' = c then Num (of_int (int_entry v (get r c))) else get r c')"
  by (simp add: cast_cell_def get_put)

lemma prepare_producto_rows:
  assumes "prepare_producto py_str producto ob oc = Inr out"
  shows "\<exists>i. rows out =
           map (final_row py_str i ob oc)
             (rows (infer_categoria oc (producto_before_inference ob oc producto)))"
    and "has_col producto ''categoria_id''" "has_col producto ''volumen''"
    "has_col producto ''precio''" "has_col producto ''marca_id''"
proof -
  let ?p5 = "infer_categoria oc (producto_before_inference ob oc producto)"
  from assms show h: "has_col producto ''categoria_id''" "has_col producto ''volumen''"
    "has_col producto ''precio''" "has_col producto ''marca_id''"
    by (auto simp: prepare_producto_def split: if_splits)
  from assms h obtain p6 p7 p8 where c1: "cast_column ''id'' None ?p5 = Inr p6"
    and c2: "cast_column ''categoria_id'' (Some oc) p6 = Inr p7"
    and c3: "cast_column ''marca_id'' (Some ob) p7 = Inr p8"
    and o: "out = assign ''nombre''
              (\<lambda>r. Txt (upper (strip (astype_str py_str (get r ''nombre''))))) p8"
    by (auto simp: prepare_producto_def Let_def split: sum.splits if_splits)
  from cast_column_rows [OF c1] obtain i where
    "p6 = \<lparr>columns = add_col ''id'' (columns ?p5), rows = map (cast_cell ''id'' i) (rows ?p5)\<rparr>"
    by blast
  then have r6: "rows p6 = map (cast_cell ''id'' i) (rows ?p5)" by simp
  from cast_column_rows [OF c2] have r7: "rows p7 = map (cast_cell ''categoria_id'' oc) (rows p6)"
    by auto
  from cast_column_rows [OF c3] have r8: "rows p8 = map (cast_cell ''marca_id'' ob) (rows p7)"
    by auto
  have "rows out = map (final_row py_str i ob oc) (rows ?p5)"
    by (simp add: o assign_def r8 r7 r6 final_row_def Let_def comp_def)
  then show "\<exists>i. rows out = map (final_row py_str i ob oc) (rows ?p5)" by blast
qed

lemma get_final_row:
  "get (final_row py_str i ob oc r) ''precio'' = get r ''precio''"
  "get (final_row py_str i ob oc r) ''categoria_id'' =
     Num (of_int (int_entry oc (get r ''categoria_id'')))"
  "get (final_row py_str i ob oc r) ''marca_id'' = Num (of_int (int_entry ob (get r ''marca_id'')))"
  by (simp_all add: final_row_def Let_def get_put get_cast_cell)

lemma nums_iff: "x \<in> set (nums cs) \<longleftrightarrow> Num x \<in> set cs"
  by (induction cs rule: nums.induct) auto

lemma median_cases:
  "median cs = NA \<and> nums cs = [] \<or>
   (\<exists>x \<in> set (nums cs). median cs = Num x) \<or>
   (\<exists>x \<in> set (nums cs). \<exists>y \<in> set (nums cs). median cs = Num ((x + y) / 2))"
proof (cases "nums cs = []")
  case True
  then show ?thesis by (simp add: median_def)
next
  case False
  let ?xs = "sort (nums cs)"
  have n: "0 < length ?xs" using False by simp
  have ne: "?xs \<noteq> []" by (metis False length_0_conv length_sort)
  have s: "set ?xs = set (nums cs)" by simp
  have a: "?xs ! (length ?xs div 2) \<in> set (nums cs)"
    using n s nth_mem [of "length ?xs div 2" ?xs] by simp
  have b: "?xs ! (length ?xs div 2 - 1) \<in> set (nums cs)"
    using n s nth_mem [of "length ?xs div 2 - 1" ?xs] by (simp add: less_imp_diff_less)
  show ?thesis
  proof (cases "odd (length ?xs)")
    case True
    then have "median cs = Num (?xs ! (length ?xs div 2))"
      using ne by (simp add: median_def Let_def)
    with a show ?thesis by blast
  next
    case even: False
    then have "median cs =
        Num ((?xs ! (length ?xs div 2 - 1) + ?xs ! (length ?xs div 2)) / 2)"
      using ne by (simp add: median_def Let_def)
    with a b show ?thesis by blast
  qed
qed

lemma median_not_negative:
  assumes "\<forall>c \<in> set cs. not_negative c"
  shows "not_negative (median cs)"
proof -
  have "\<forall>x \<in> set (nums cs). 0 \<le> x"
  proof
    fix x assume "x \<in> set (nums cs)"
    then have "Num x \<in> set cs" by (simp add: nums_iff)
    with assms have "not_negative (Num x)" by blast
    then show "0 \<le> x" by (simp add: not_negative_def)
  qed
  with median_cases [of cs] show ?thesis
    by (auto simp: not_negative_def)
qed

lemma median_positive:
  assumes "\<forall>c \<in> set cs. c = NA \<or> positive_cell c"
  shows "median cs = NA \<or> positive_cell (median cs)"
proof -
  have "\<forall>x \<in> set (nums cs). 0 < x"
  proof
    fix x assume "x \<in> set (nums cs)"
    then have "Num x \<in> set cs" by (simp add: nums_iff)
    with assms have "positive_cell (Num x)" by blast
    then show "0 < x" by (simp add: positive_cell_def)
  qed
  then have p: "\<And>x y. x \<in> set (nums cs) \<Longrightarrow> y \<in> set (nums cs) \<Longrightarrow> 0 < (x + y) / 2"
    by (simp add: add_pos_pos)
  from median_cases [of cs] \<open>\<forall>x \<in> set (nums cs). 0 < x\<close> p show ?thesis
    by (auto simp: positive_cell_def)
qed

lemma median_present:
  assumes "\<exists>c \<in> set cs. positive_cell c"
  shows "median cs \<noteq> NA"
proof -
  from assms obtain c where c: "c \<in> set cs" "positive_cell c" by blast
  obtain q where "c = Num q" using c(2) by (cases c) (simp_all add: positive_cell_def)
  with c have "Num q \<in> set cs" by simp
  then have "nums cs \<noteq> []" using nums_iff [of q cs] by auto
  with median_cases [of cs] show ?thesis by auto
qed

lemma first_mode_member: "first_mode cs = NA \<or> (\<exists>x. first_mode cs = Num x \<and> Num x \<in> set cs)"
proof -
  let ?xs = "nums cs"
  let ?top = "foldr max (map (count_list ?xs) ?xs) 0"
  let ?l = "sort (filter (\<lambda>x. count_list ?xs x = ?top) ?xs)"
  show ?thesis
  proof (cases ?l)
    case Nil
    then show ?thesis by (simp add: first_mode_def Let_def)
  next
    case (Cons x l)
    then have "x \<in> set ?l" by simp
    then have "x \<in> set ?xs" by simp
    then have "Num x \<in> set cs" by (simp add: nums_iff)
    moreover have "first_mode cs = Num x" using Cons by (simp add: first_mode_def Let_def)
    ultimately show ?thesis by blast
  qed
qed

lemma group_transform_cases:
  "group_transform by_cols target agg f r = NA \<or>
   (\<exists>qs. set qs \<subseteq> set (rows f) \<and>
      group_transform by_cols target agg f r = agg (map (\<lambda>q. get q target) qs))"
  unfolding group_transform_def
  by (cases "list_ex (\<lambda>c. isna (get r c)) by_cols") (auto intro!: exI [of _ "filter _ (rows f)"])

lemma col_assign_same: "col (assign c v f) c = map v (rows f)"
  by (simp add: col_def assign_def get_put comp_def)

lemma col_assign_other: "c' \<noteq> c \<Longrightarrow> col (assign c v f) c' = col f c'"
  by (simp add: col_def assign_def get_put comp_def)

lemma in_col: "r \<in> set (rows f) \<Longrightarrow> get r c \<in> set (col f c)"
  by (simp add: col_def)

lemma fill_stage:
  assumes "\<forall>x \<in> set (col f c). P x" "\<forall>r \<in> set (rows f). isna (get r c) \<longrightarrow> P (v r)"
  shows "\<forall>x \<in> set (col (assign c (\<lambda>r. fillna (v r) (get r c)) f) c). P x"
  using assms by (auto simp: col_assign_same fillna_def in_col)

lemma fill_keeps:
  assumes "\<exists>x \<in> set (col f c). positive_cell x"
  shows "\<exists>x \<in> set (col (assign c (\<lambda>r. fillna (v r) (get r c)) f) c). positive_cell x"
proof -
  from assms obtain r where r: "r \<in> set (rows f)" "positive_cell (get r c)"
    by (auto simp: col_def)
  then have "\<not> isna (get r c)" by (auto simp: positive_cell_def isna_def)
  then have "fillna (v r) (get r c) = get r c" by (simp add: fillna_def)
  with r show ?thesis by (force simp: col_assign_same)
qed

lemma group_median_stage:
  assumes "\<forall>x \<in> set (col f c). P x" "P NA" "\<And>cs. \<forall>x \<in> set cs. P x \<Longrightarrow> P (median cs)"
  shows "P (group_transform by_cols c median f r)"
proof -
  from group_transform_cases [of by_cols c median f r]
  show ?thesis
  proof
    assume "group_transform by_cols c median f r = NA"
    with assms(2) show ?thesis by simp
  next
    assume "\<exists>qs. set qs \<subseteq> set (rows f) \<and>
      group_transform by_cols c median f r = median (map (\<lambda>q. get q c) qs)"
    then obtain qs where qs: "set qs \<subseteq> set (rows f)"
      and g: "group_transform by_cols c median f r = median (map (\<lambda>q. get q c) qs)" by blast
    have "\<forall>x \<in> set (map (\<lambda>q. get q c) qs). P x"
      using qs assms(1) by (auto simp: col_def)
    from assms(3) [OF this] g show ?thesis by simp
  qed
qed

lemma impute_precio_positive:
  assumes A: "\<forall>x \<in> set (col f ''precio''). not_negative x"
    and B: "\<exists>x \<in> set (col f ''precio''). positive_cell x"
  shows "\<forall>x \<in> set (col (impute_precio f) ''precio''). positive_cell x"
proof -
  let ?v1 = "\<lambda>r. group_transform [''categoria_id'', ''volumen''] ''precio'' median f r"
  define f1 where "f1 = assign ''precio'' (\<lambda>r. fillna (?v1 r) (get r ''precio'')) f"
  define f2 where "f2 = assign ''precio''
      (\<lambda>r. if get r ''precio'' = Num 0 then NA else get r ''precio'') f1"
  let ?v3 = "\<lambda>r. group_transform [''volumen''] ''precio'' median f2 r"
  define f3 where "f3 = assign ''precio'' (\<lambda>r. fillna (?v3 r) (get r ''precio'')) f2"
  define f4 where "f4 = assign ''precio''
      (\<lambda>r. fillna (median (col f3 ''precio'')) (get r ''precio'')) f3"
  have imp: "impute_precio f = f4"
    by (simp add: impute_precio_def precio_reopened_def Let_def f1_def f2_def f3_def f4_def)
  have nn: "not_negative NA" by (simp add: not_negative_def)
  have A1: "\<forall>x \<in> set (col f1 ''precio''). not_negative x"
    unfolding f1_def
    by (rule fill_stage [OF A]) (use group_median_stage [OF A nn median_not_negative] in blast)
  have B1: "\<exists>x \<in> set (col f1 ''precio''). positive_cell x"
    unfolding f1_def by (rule fill_keeps [OF B])
  have A2: "\<forall>x \<in> set (col f2 ''precio''). x = NA \<or> positive_cell x"
  proof
    fix x assume "x \<in> set (col f2 ''precio'')"
    then obtain r where r: "r \<in> set (rows f1)"
      and x: "x = (if get r ''precio'' = Num 0 then NA else get r ''precio'')"
      by (auto simp: f2_def col_assign_same)
    from r A1 have "not_negative (get r ''precio'')" by (simp add: in_col)
    with x show "x = NA \<or> positive_cell x"
      by (cases "get r ''precio''") (auto simp: not_negative_def positive_cell_def)
  qed
  have B2: "\<exists>x \<in> set (col f2 ''precio''). positive_cell x"
  proof -
    from B1 obtain r where r: "r \<in> set (rows f1)" "positive_cell (get r ''precio'')"
      by (auto simp: col_def)
    then have "get r ''precio'' \<noteq> Num 0" by (auto simp: positive_cell_def)
    with r show ?thesis by (force simp: f2_def col_assign_same)
  qed
  have pn: "NA = NA \<or> positive_cell NA" by simp
  have A3: "\<forall>x \<in> set (col f3 ''precio''). x = NA \<or> positive_cell x"
    unfolding f3_def
    by (rule fill_stage [OF A2])
      (use group_median_stage [of f2 "''precio''" "\<lambda>x. x = NA \<or> positive_cell x",
          OF A2 pn median_positive] in blast)
  have B3: "\<exists>x \<in> set (col f3 ''precio''). positive_cell x"
    unfolding f3_def by (rule fill_keeps [OF B2])
  have m: "positive_cell (median (col f3 ''precio''))"
    using median_positive [OF A3] median_present [OF B3] by blast
  have "\<forall>x \<in> set (col f4 ''precio''). positive_cell x"
  proof
    fix x assume "x \<in> set (col f4 ''precio'')"
    then obtain r where r: "r \<in> set (rows f3)"
      and x: "x = fillna (median (col f3 ''precio'')) (get r ''precio'')"
      by (auto simp: f4_def col_assign_same)
    from r A3 have "get r ''precio'' = NA \<or> positive_cell (get r ''precio'')"
      by (simp add: in_col)
    with x m show "positive_cell x" by (auto simp: fillna_def isna_def)
  qed
  with imp show ?thesis by simp
qed

lemma impute_precio_other:
  "c \<noteq> ''precio'' \<Longrightarrow> col (impute_precio f) c = col f c"
  by (simp add: impute_precio_def precio_reopened_def Let_def col_assign_other)

lemma get_coerce_row:
  "get (coerce_row r) c =
     (if c \<in> {''categoria_id'', ''marca_id'', ''volumen'', ''precio''}
      then to_numeric (get r c) else get r c)"
  by (simp add: coerce_row_def Let_def get_put)

lemma rows_coerce_numeric:
  "has_col f c \<Longrightarrow>
   coerce_numeric c f =
     \<lparr>columns = columns f, rows = map (\<lambda>r. put c (to_numeric (get r c)) r) (rows f)\<rparr>"
  by (simp add: coerce_numeric_def assign_def add_col_present has_col_def)

lemma coerce_numeric_step:
  assumes "has_col producto c" "columns f = columns producto"
  shows "columns (coerce_numeric c f) = columns producto"
    "rows (coerce_numeric c f) = map (\<lambda>r. put c (to_numeric (get r c)) r) (rows f)"
  using assms by (simp_all add: rows_coerce_numeric has_col_def)

lemma before_structure:
  assumes "has_col producto ''categoria_id''" "has_col producto ''volumen''"
    "has_col producto ''precio''" "has_col producto ''marca_id''"
  shows "producto_before_inference ob oc producto =
         assign_both_missing ob oc (impute_precio (kept_products producto))"
proof -
  define p0 where "p0 = drop_duplicates (columns producto) producto"
  define p1 where "p1 = coerce_numeric ''categoria_id'' p0"
  define p2 where "p2 = coerce_numeric ''marca_id'' p1"
  define p3 where "p3 = coerce_numeric ''volumen'' p2"
  define p4 where "p4 = coerce_numeric ''precio'' p3"
  have c0: "columns p0 = columns producto" by (simp add: p0_def drop_duplicates_def)
  note s1 = coerce_numeric_step [OF assms(1) c0, folded p1_def]
  note s2 = coerce_numeric_step [OF assms(4) s1(1), folded p2_def]
  note s3 = coerce_numeric_step [OF assms(2) s2(1), folded p3_def]
  note s4 = coerce_numeric_step [OF assms(3) s3(1), folded p4_def]
  have "rows p4 = map coerce_row (rows p0)"
    by (simp add: s4(2) s3(2) s2(2) s1(2) coerce_row_def Let_def comp_def)
  then have "select_rows (\<lambda>r. \<not> mask_drop r) p4 = kept_products producto"
    using s4(1) by (simp add: select_rows_def kept_products_def p0_def drop_duplicates_def)
  then show ?thesis
    by (simp add: producto_before_inference_def Let_def p4_def p3_def p2_def p1_def p0_def)
qed

lemma kept_products_precio:
  assumes "list_all (\<lambda>r. not_negative (to_numeric (get r ''precio''))) (rows producto)"
  shows "\<forall>x \<in> set (col (kept_products producto) ''precio''). not_negative x"
  using assms drop_dups_subset [of "\<lambda>r. map (get r) (columns producto)" "[]" "rows producto"]
  by (auto simp: col_def kept_products_def get_coerce_row list_all_iff)

lemma kept_products_positive:
  assumes h: "has_col producto ''categoria_id''" "has_col producto ''volumen''"
    "has_col producto ''precio''"
    and e: "list_ex (\<lambda>r. kept_row r \<and> positive_cell (to_numeric (get r ''precio'')))
              (rows producto)"
  shows "\<exists>x \<in> set (col (kept_products producto) ''precio''). positive_cell x"
proof -
  let ?key = "\<lambda>r. map (get r) (columns producto)"
  from e obtain r0 where r0: "r0 \<in> set (rows producto)" "kept_row r0"
    "positive_cell (to_numeric (get r0 ''precio''))"
    by (auto simp: list_ex_iff)
  from drop_dups_keys [OF r0(1), of ?key "[]"]
  obtain x where x: "x \<in> set (drop_dups ?key [] (rows producto))" "?key x = ?key r0"
    by auto
  have same: "\<And>c. c \<in> set (columns producto) \<Longrightarrow> get x c = get r0 c"
    using x(2) by (simp add: map_eq_conv)
  have g: "get x ''categoria_id'' = get r0 ''categoria_id''"
    "get x ''volumen'' = get r0 ''volumen''" "get x ''precio'' = get r0 ''precio''"
    using h same by (simp_all add: has_col_def)
  have "\<not> mask_drop (coerce_row x)"
    using r0(2) g by (simp add: mask_drop_def kept_row_def get_coerce_row)
  then have "coerce_row x \<in> set (rows (kept_products producto))"
    using x(1) by (simp add: kept_products_def)
  moreover have "positive_cell (get (coerce_row x) ''precio'')"
    using r0(3) g by (simp add: get_coerce_row)
  ultimately show ?thesis by (force simp: col_def)
qed

lemma kept_products_ids:
  assumes "c = ''categoria_id'' \<or> c = ''marca_id''"
  shows "\<forall>x \<in> set (col (kept_products producto) c). known_id v producto c x"
proof
  fix x assume "x \<in> set (col (kept_products producto) c)"
  then obtain r where r: "r \<in> set (rows producto)" and x: "x = to_numeric (get r c)"
    using assms drop_dups_subset [of "\<lambda>r. map (get r) (columns producto)" "[]" "rows producto"]
    by (auto simp: col_def kept_products_def get_coerce_row)
  show "known_id v producto c x"
  proof (cases x)
    case (Num q)
    with x r have "Num q \<in> set (map to_numeric (col producto c))" by (force simp: col_def)
    then have "q \<in> set (nums (map to_numeric (col producto c)))" by (simp add: nums_iff)
    with Num show ?thesis by (auto simp: known_id_def)
  next
    case NA
    then show ?thesis by (simp add: known_id_def)
  next
    case (Txt t)
    with x show ?thesis by (cases "get r c") (simp_all add: to_numeric_def)
  next
    case (Date y m d)
    with x show ?thesis by (cases "get r c") (simp_all add: to_numeric_def)
  qed
qed

lemma col_both_missing:
  "col (assign_both_missing ob oc f) ''precio'' = col f ''precio''"
  by (simp add: col_def assign_both_missing_def get_put comp_def if_distrib [of "\<lambda>r. get r _"]
      cong: if_cong)

lemma both_missing_ids:
  assumes "\<forall>x \<in> set (col f ''categoria_id''). known_id oc p ''categoria_id'' x"
    "\<forall>x \<in> set (col f ''marca_id''). known_id ob p ''marca_id'' x"
  shows "\<forall>x \<in> set (col (assign_both_missing ob oc f) ''categoria_id'').
           known_id oc p ''categoria_id'' x"
    "\<forall>x \<in> set (col (assign_both_missing ob oc f) ''marca_id''). known_id ob p ''marca_id'' x"
  using assms
  by (auto simp: col_def assign_both_missing_def get_put known_id_def)

lemma infer_categoria_cols:
  "col (infer_categoria oc f) ''precio'' = col f ''precio''"
  "col (infer_categoria oc f) ''marca_id'' = col f ''marca_id''"
  by (simp_all add: infer_categoria_def Let_def col_assign_other)

lemma infer_categoria_ids:
  assumes "\<forall>x \<in> set (col f ''categoria_id''). known_id oc p ''categoria_id'' x"
  shows "\<forall>x \<in> set (col (infer_categoria oc f) ''categoria_id''). known_id oc p ''categoria_id'' x"
proof
  fix x assume "x \<in> set (col (infer_categoria oc f) ''categoria_id'')"
  then obtain r where r: "r \<in> set (rows f)"
    and x: "x = fillna (Num (of_int oc))
                  (if \<not> isna (get r ''categoria_id'') then get r ''categoria_id''
                   else group_mode_transform f [''marca_id'', ''volumen''] ''categoria_id'' r)"
    by (auto simp: infer_categoria_def Let_def col_def assign_def get_put)
  let ?m = "group_mode_transform f [''marca_id'', ''volumen''] ''categoria_id'' r"
  have m: "known_id oc p ''categoria_id'' ?m"
  proof -
    from group_transform_cases [of "[''marca_id'', ''volumen'']" "''categoria_id''" first_mode f r]
    show ?thesis
    proof
      assume "group_transform [''marca_id'', ''volumen''] ''categoria_id'' first_mode f r = NA"
      then show ?thesis by (simp add: group_mode_transform_def known_id_def)
    next
      assume "\<exists>qs. set qs \<subseteq> set (rows f) \<and>
        group_transform [''marca_id'', ''volumen''] ''categoria_id'' first_mode f r =
          first_mode (map (\<lambda>q. get q ''categoria_id'') qs)"
      then obtain qs where qs: "set qs \<subseteq> set (rows f)"
        and g: "?m = first_mode (map (\<lambda>q. get q ''categoria_id'') qs)"
        by (auto simp: group_mode_transform_def)
      from first_mode_member [of "map (\<lambda>q. get q ''categoria_id'') qs"]
      show ?thesis
      proof
        assume "first_mode (map (\<lambda>q. get q ''categoria_id'') qs) = NA"
        with g show ?thesis by (simp add: known_id_def)
      next
        assume "\<exists>y. first_mode (map (\<lambda>q. get q ''categoria_id'') qs) = Num y \<and>
                  Num y \<in> set (map (\<lambda>q. get q ''categoria_id'') qs)"
        then obtain y where y: "?m = Num y" "Num y \<in> set (map (\<lambda>q. get q ''categoria_id'') qs)"
          using g by auto
        with qs have "Num y \<in> set (col f ''categoria_id'')" by (auto simp: col_def)
        with assms y(1) show ?thesis by auto
      qed
    qed
  qed
  have "known_id oc p ''categoria_id'' (get r ''categoria_id'')"
    using assms r by (simp add: in_col)
  with m x show "known_id oc p ''categoria_id'' x"
    by (auto simp: fillna_def known_id_def)
qed

lemma known_id_cast:
  assumes "known_id v p c x"
  shows "id_from v (column_ids p c) (Num (of_int (int_entry v x)))"
  using assms
  by (auto simp: known_id_def id_from_def column_ids_def int_entry_def to_numeric_def
      trunc_of_int list_ex_iff)

lemma id_from_exact:
  assumes "id_from v (column_ids f c) x" "exact_column f c" "exact_sentinel v"
  shows "exact_int x"
proof -
  from assms(1) consider "x = Num (of_int v)"
    | q where "q \<in> set (nums (map to_numeric (col f c)))" "x = Num (of_int (trunc q))"
    by (auto simp: id_from_def column_ids_def list_ex_iff)
  then show ?thesis
  proof cases
    case 1
    with assms(3) show ?thesis by (simp add: exact_int_of_int exact_sentinel_def)
  next
    case 2
    from 2(1) obtain r where r: "r \<in> set (rows f)" "to_numeric (get r c) = Num q"
      by (auto simp: nums_iff col_def)
    from r(2) have "get r c = Num q" by (cases "get r c") (simp_all add: to_numeric_def)
    with r(1) assms(2) have "\<bar>q\<bar> < 2 ^ 53"
      by (auto simp: exact_column_def list_all_iff exact_number_def)
    from trunc_bound[OF this] have "\<bar>trunc q\<bar> \<le> 2 ^ 53" by simp
    then show ?thesis unfolding 2(2) by (rule exact_int_of_int)
  qed
qed

text \<open>
  C3, as amended. Whenever prepare_producto returns: if the numeric categoria_id and
  marca_id values of the input product table are below \<open>2^53\<close> in absolute value and the
  two sentinel ids are at most \<open>2^53\<close> in absolute value, every row has a categoria_id that
  is the category sentinel or the integer part of a categoria_id of the input product
  table, and a marca_id that is the brand sentinel or the integer part of a marca_id of
  the input product table, both whole numbers of absolute value at most \<open>2^53\<close>; the ids
  taken from the input are not looked up in the dimension tables. If no input precio is negative and some input row that the drop rule
  keeps has a positive precio, every row has a precio that is present and positive.
\<close>

theorem prepare_producto_invariant:
  "prepare_producto py_str producto ob oc = Inr out \<longrightarrow>
     (exact_column producto ''categoria_id'' \<and> exact_column producto ''marca_id'' \<and>
      exact_sentinel ob \<and> exact_sentinel oc \<longrightarrow>
        list_all (\<lambda>r. id_from oc (column_ids producto ''categoria_id'') (get r ''categoria_id'') \<and>
                    id_from ob (column_ids producto ''marca_id'') (get r ''marca_id'') \<and>
                    exact_int (get r ''categoria_id'') \<and> exact_int (get r ''marca_id''))
          (rows out)) \<and>
     (list_all (\<lambda>r. not_negative (to_numeric (get r ''precio''))) (rows producto) \<and>
      list_ex (\<lambda>r. kept_row r \<and> positive_cell (to_numeric (get r ''precio''))) (rows producto) \<longrightarrow>
        list_all (\<lambda>r. positive_cell (get r ''precio'')) (rows out))"
proof
  assume a: "prepare_producto py_str producto ob oc = Inr out"
  note R = prepare_producto_rows [OF a]
  let ?k = "kept_products producto"
  let ?p4 = "assign_both_missing ob oc (impute_precio ?k)"
  let ?p5 = "infer_categoria oc ?p4"
  have b: "producto_before_inference ob oc producto = ?p4"
    using R(2-5) by (rule before_structure)
  from R(1) obtain i where out: "rows out = map (final_row py_str i ob oc) (rows ?p5)"
    unfolding b by blast
  have k1: "\<forall>x \<in> set (col (impute_precio ?k) ''categoria_id''). known_id oc producto ''categoria_id'' x"
    using kept_products_ids [of "''categoria_id''" producto oc] by (simp add: impute_precio_other)
  have k2: "\<forall>x \<in> set (col (impute_precio ?k) ''marca_id''). known_id ob producto ''marca_id'' x"
    using kept_products_ids [of "''marca_id''" producto ob] by (simp add: impute_precio_other)
  note k4 = both_missing_ids [OF k1 k2]
  note c5 = infer_categoria_ids [OF k4(1)]
  have m5: "\<forall>x \<in> set (col ?p5 ''marca_id''). known_id ob producto ''marca_id'' x"
    using k4(2) by (simp add: infer_categoria_cols)
  have ids: "list_all (\<lambda>r. id_from oc (column_ids producto ''categoria_id'') (get r ''categoria_id'') \<and>
                 id_from ob (column_ids producto ''marca_id'') (get r ''marca_id'')) (rows out)"
    unfolding out list_all_iff
  proof
    fix r' assume "r' \<in> set (map (final_row py_str i ob oc) (rows ?p5))"
    then obtain r where r: "r \<in> set (rows ?p5)" and r': "r' = final_row py_str i ob oc r"
      by auto
    from r c5 have "known_id oc producto ''categoria_id'' (get r ''categoria_id'')"
      by (simp add: in_col)
    moreover from r m5 have "known_id ob producto ''marca_id'' (get r ''marca_id'')"
      by (simp add: in_col)
    ultimately show "id_from oc (column_ids producto ''categoria_id'') (get r' ''categoria_id'') \<and>
                 id_from ob (column_ids producto ''marca_id'') (get r' ''marca_id'')"
      by (simp add: r' get_final_row known_id_cast)
  qed
  have pr: "list_all (\<lambda>r. not_negative (to_numeric (get r ''precio''))) (rows producto) \<and>
      list_ex (\<lambda>r. kept_row r \<and> positive_cell (to_numeric (get r ''precio''))) (rows producto) \<longrightarrow>
        list_all (\<lambda>r. positive_cell (get r ''precio'')) (rows out)"
  proof
    assume h: "list_all (\<lambda>r. not_negative (to_numeric (get r ''precio''))) (rows producto) \<and>
      list_ex (\<lambda>r. kept_row r \<and> positive_cell (to_numeric (get r ''precio''))) (rows producto)"
    have A: "\<forall>x \<in> set (col ?k ''precio''). not_negative x"
      using h by (intro kept_products_precio) simp
    have B: "\<exists>x \<in> set (col ?k ''precio''). positive_cell x"
      using h R(2-4) by (intro kept_products_positive) simp_all
    have "\<forall>x \<in> set (col ?p5 ''precio''). positive_cell x"
      using impute_precio_positive [OF A B]
      by (simp add: infer_categoria_cols col_both_missing)
    then show "list_all (\<lambda>r. positive_cell (get r ''precio'')) (rows out)"
      unfolding out by (simp add: list_all_iff get_final_row in_col)
  qed
  have idx: "exact_column producto ''categoria_id'' \<and> exact_column producto ''marca_id'' \<and>
      exact_sentinel ob \<and> exact_sentinel oc \<longrightarrow>
        list_all (\<lambda>r. id_from oc (column_ids producto ''categoria_id'') (get r ''categoria_id'') \<and>
                    id_from ob (column_ids producto ''marca_id'') (get r ''marca_id'') \<and>
                    exact_int (get r ''categoria_id'') \<and> exact_int (get r ''marca_id''))
          (rows out)"
  proof
    assume h: "exact_column producto ''categoria_id'' \<and> exact_column producto ''marca_id'' \<and>
      exact_sentinel ob \<and> exact_sentinel oc"
    show "list_all (\<lambda>r. id_from oc (column_ids producto ''categoria_id'') (get r ''categoria_id'') \<and>
                    id_from ob (column_ids producto ''marca_id'') (get r ''marca_id'') \<and>
                    exact_int (get r ''categoria_id'') \<and> exact_int (get r ''marca_id''))
          (rows out)"
      unfolding list_all_iff
    proof
      fix r assume "r \<in> set (rows out)"
      with ids have i: "id_from oc (column_ids producto ''categoria_id'') (get r ''categoria_id'')"
        "id_from ob (column_ids producto ''marca_id'') (get r ''marca_id'')"
        by (simp_all add: list_all_iff)
      from h have e: "exact_column producto ''categoria_id''" "exact_column producto ''marca_id''"
        "exact_sentinel ob" "exact_sentinel oc"
        by blast+
      from i(1) e(1) e(4) have "exact_int (get r ''categoria_id'')" by (rule id_from_exact)
      moreover from i(2) e(2) e(3) have "exact_int (get r ''marca_id'')" by (rule id_from_exact)
      ultimately show "id_from oc (column_ids producto ''categoria_id'') (get r ''categoria_id'') \<and>
                    id_from ob (column_ids producto ''marca_id'') (get r ''marca_id'') \<and>
                    exact_int (get r ''categoria_id'') \<and> exact_int (get r ''marca_id'')"
        using i by simp
    qed
  qed
  from idx pr show "(exact_column producto ''categoria_id'' \<and> exact_column producto ''marca_id'' \<and>
      exact_sentinel ob \<and> exact_sentinel oc \<longrightarrow>
        list_all (\<lambda>r. id_from oc (column_ids producto ''categoria_id'') (get r ''categoria_id'') \<and>
                    id_from ob (column_ids producto ''marca_id'') (get r ''marca_id'') \<and>
                    exact_int (get r ''categoria_id'') \<and> exact_int (get r ''marca_id''))
          (rows out)) \<and>
     (list_all (\<lambda>r. not_negative (to_numeric (get r ''precio''))) (rows producto) \<and>
      list_ex (\<lambda>r. kept_row r \<and> positive_cell (to_numeric (get r ''precio''))) (rows producto) \<longrightarrow>
        list_all (\<lambda>r. positive_cell (get r ''precio'')) (rows out))"
    by blast
qed

theorem prepare_producto_invariant_witness:
  "list_all (\<lambda>r. id_from 8 (column_ids scenario_producto ''categoria_id'') (get r ''categoria_id'') \<and>
               id_from 3 (column_ids scenario_producto ''marca_id'') (get r ''marca_id'') \<and>
               exact_int (get r ''categoria_id'') \<and> exact_int (get r ''marca_id''))
     (rows (frame_of [''id'', ''nombre'', ''volumen'', ''precio'', ''categoria_id'', ''marca_id'']
        [[Num 1, Txt ''A'', Num 5, Num 10, Num 8, Num 3],
         [Num 2, Txt ''B'', Num 5, Num 10, Num 7, Num 3]])) \<and>
   list_all (\<lambda>r. positive_cell (get r ''precio''))
     (rows (frame_of [''id'', ''nombre'', ''volumen'', ''precio'', ''categoria_id'', ''marca_id'']
        [[Num 1, Txt ''A'', Num 5, Num 10, Num 8, Num 3],
         [Num 2, Txt ''B'', Num 5, Num 10, Num 7, Num 3]]))"
proof -
  have 1: "prepare_producto render_none scenario_producto 3 8 =
     Inr (frame_of [''id'', ''nombre'', ''volumen'', ''precio'', ''categoria_id'', ''marca_id'']
        [[Num 1, Txt ''A'', Num 5, Num 10, Num 8, Num 3],
         [Num 2, Txt ''B'', Num 5, Num 10, Num 7, Num 3]])"
    by code_simp
  have 2: "list_all (\<lambda>r. not_negative (to_numeric (get r ''precio''))) (rows scenario_producto)"
    by code_simp
  have 3: "list_ex (\<lambda>r. kept_row r \<and> positive_cell (to_numeric (get r ''precio'')))
             (rows scenario_producto)"
    by code_simp
  have 4: "exact_column scenario_producto ''categoria_id''"
    "exact_column scenario_producto ''marca_id''"
    by code_simp+
  have 5: "exact_sentinel 3" "exact_sentinel 8"
    by (simp_all add: exact_sentinel_def)
  note t = prepare_producto_invariant [of render_none scenario_producto 3 8, THEN mp, OF 1]
  show ?thesis
    using t 2 3 4 5 by blast
qed

text \<open>
  The claim as stated fails. With the dimension tables prepared from one category and
  one brand (ids 1 and the sentinel 2), a product whose only price is missing keeps a
  missing precio, and its categoria_id 99 and marca_id 4 are in neither table; and a
  missing price filled by the median of the prices -10 and 10 becomes 0.
\<close>

theorem prepare_producto_unresolved:
  "prepare_categoria render_none (frame_of [''id'', ''categoria''] [[Num 1, Txt ''tv'']]) =
     Inr (frame_of [''id'', ''categoria''] [[Num 1, Txt ''TV''], [Num 2, Txt ''OTHER'']], 2) \<and>
   prepare_marca render_none (frame_of [''id'', ''marca''] [[Num 1, Txt ''acme'']]) =
     Inr (frame_of [''id'', ''marca''] [[Num 1, Txt ''ACME''], [Num 2, Txt ''OTHER'']], 2) \<and>
   prepare_producto render_none
     (frame_of [''id'', ''nombre'', ''volumen'', ''precio'', ''categoria_id'', ''marca_id'']
        [[Num 1, Txt ''a'', Num 5, NA, Num 99, Num 4]]) 2 2 =
     Inr (frame_of [''id'', ''nombre'', ''volumen'', ''precio'', ''categoria_id'', ''marca_id'']
        [[Num 1, Txt ''A'', Num 5, NA, Num 99, Num 4]]) \<and>
   prepare_producto render_none
     (frame_of [''id'', ''nombre'', ''volumen'', ''precio'', ''categoria_id'', ''marca_id'']
        [[Num 1, Txt ''a'', Num 5, Num (-10), Num 1, Num 1],
         [Num 2, Txt ''b'', Num 5, Num 10, Num 1, Num 1],
         [Num 3, Txt ''c'', Num 5, NA, Num 2, Num 1]]) 2 2 =
     Inr (frame_of [''id'', ''nombre'', ''volumen'', ''precio'', ''categoria_id'', ''marca_id'']
        [[Num 1, Txt ''A'', Num 5, Num (-10), Num 1, Num 1],
         [Num 2, Txt ''B'', Num 5, Num 10, Num 1, Num 1],
         [Num 3, Txt ''C'', Num 5, Num 0, Num 2, Num 1]])"
  by code_simp

lemma scenario_stage_precio:
  "impute_precio (select_rows (\<lambda>r. \<not> mask_drop r)
     (coerce_numeric ''precio'' (coerce_numeric ''volumen''
        (coerce_numeric ''marca_id'' (coerce_numeric ''categoria_id''
           (drop_duplicates (columns scenario_producto) scenario_producto)))))) =
   \<lparr>columns = [''id'', ''nombre'', ''volumen'', ''precio'', ''categoria_id'', ''marca_id''],
    rows = [[(''id'', Num 1), (''nombre'', Txt ''a''), (''volumen'', Num 5), (''precio'', Num 10),
             (''categoria_id'', NA), (''marca_id'', NA)],
            [(''id'', Num 2), (''nombre'', Txt ''b''), (''volumen'', Num 5), (''precio'', Num 10),
             (''categoria_id'', Num 7), (''marca_id'', NA)]]\<rparr>"
  by code_simp

lemma get_Cons: "get ((k, v) # r) c = (if c = k then v else get r c)"
  by (simp add: get_def)

lemma put_Cons: "put c v ((k, w) # r) = (if k = c then (k, v) # r else (k, w) # put c v r)"
  by (simp add: put_def)

lemma scenario_before:
  "producto_before_inference ob oc scenario_producto =
   frame_of [''id'', ''nombre'', ''volumen'', ''precio'', ''categoria_id'', ''marca_id'']
     [[Num 1, Txt ''a'', Num 5, Num 10, Num (of_int oc), Num (of_int ob)],
      [Num 2, Txt ''b'', Num 5, Num 10, Num 7, NA]]"
  unfolding producto_before_inference_def Let_def scenario_stage_precio
  by (simp add: assign_both_missing_def mask_both_na_def get_Cons put_Cons isna_def frame_of_def)

lemma upper_ab: "upper (strip ''a'') = ''A''" "upper (strip ''b'') = ''B''"
  by code_simp+

lemma int_entry_Num: "int_entry v (Num (of_int i)) = i" "int_entry v NA = v"
  "int_entry v (Num 1) = 1" "int_entry v (Num 2) = 2" "int_entry v (Num 7) = 7"
  by (simp_all add: int_entry_def to_numeric_def trunc_def)

lemma not_fractional: "\<not> fractional (Num 1)" "\<not> fractional (Num 2)" "\<not> fractional NA"
  "\<not> outside_int64 (Num 1)" "\<not> outside_int64 (Num 2)" "\<not> outside_int64 NA"
  by (simp_all add: fractional_def outside_int64_def)

lemma scenario_result:
  "prepare_producto py_str scenario_producto ob oc =
   Inr (frame_of [''id'', ''nombre'', ''volumen'', ''precio'', ''categoria_id'', ''marca_id'']
     [[Num 1, Txt ''A'', Num 5, Num 10, Num (of_int oc), Num (of_int ob)],
      [Num 2, Txt ''B'', Num 5, Num 10, Num 7, Num (of_int ob)]])"
proof -
  have h: "has_col scenario_producto ''categoria_id''" "has_col scenario_producto ''volumen''"
    "has_col scenario_producto ''precio''" "has_col scenario_producto ''marca_id''"
    by (simp_all add: has_col_def scenario_producto_def frame_of_def)
  show ?thesis
    unfolding prepare_producto_def Let_def scenario_before
    by (simp add: h[unfolded has_col_def] frame_of_def infer_categoria_def Let_def assign_def add_col_def get_Cons
        put_Cons isna_def fillna_def cast_column_def has_col_def col_def safe_int_cast_fill
        safe_int_cast_nofill to_numeric_def not_fractional set_col_def int_entry_Num
        astype_str_def upper_ab)
qed

text \<open>
  C4. In the scenario table (first row: no categoria_id, no marca_id, volumen 5, precio
  0; second row: categoria_id 7, no marca_id, volumen 5, precio 10) the
  (categoria_id, volumen) group median of the first row is missing, its zero price is
  made missing, the volumen group median is 10 and becomes its price; before the mode
  inference the first row already holds both sentinels, so no categoria_id is left to
  infer; the result has price 10 and both sentinels in the first row, for every pair of
  sentinel ids.
\<close>

theorem prepare_producto_scenario:
  "map (group_transform [''categoria_id'', ''volumen''] ''precio'' median
          (kept_products scenario_producto)) (rows (kept_products scenario_producto)) =
     [NA, Num 10] \<and>
   col (precio_reopened (kept_products scenario_producto)) ''precio'' = [NA, Num 10] \<and>
   map (group_transform [''volumen''] ''precio'' median
          (precio_reopened (kept_products scenario_producto)))
       (rows (precio_reopened (kept_products scenario_producto))) = [Num 10, Num 10] \<and>
   producto_before_inference ob oc scenario_producto =
     frame_of [''id'', ''nombre'', ''volumen'', ''precio'', ''categoria_id'', ''marca_id'']
       [[Num 1, Txt ''a'', Num 5, Num 10, Num (of_int oc), Num (of_int ob)],
        [Num 2, Txt ''b'', Num 5, Num 10, Num 7, NA]] \<and>
   prepare_producto py_str scenario_producto ob oc =
     Inr (frame_of [''id'', ''nombre'', ''volumen'', ''precio'', ''categoria_id'', ''marca_id'']
       [[Num 1, Txt ''A'', Num 5, Num 10, Num (of_int oc), Num (of_int ob)],
        [Num 2, Txt ''B'', Num 5, Num 10, Num 7, Num (of_int ob)]])"
proof (intro conjI)
  show "map (group_transform [''categoria_id'', ''volumen''] ''precio'' median
          (kept_products scenario_producto)) (rows (kept_products scenario_producto)) =
     [NA, Num 10]"
    by code_simp
  show "col (precio_reopened (kept_products scenario_producto)) ''precio'' = [NA, Num 10]"
    by code_simp
  show "map (group_transform [''volumen''] ''precio'' median
          (precio_reopened (kept_products scenario_producto)))
       (rows (precio_reopened (kept_products scenario_producto))) = [Num 10, Num 10]"
    by code_simp
  show "producto_before_inference ob oc scenario_producto =
     frame_of [''id'', ''nombre'', ''volumen'', ''precio'', ''categoria_id'', ''marca_id'']
       [[Num 1, Txt ''a'', Num 5, Num 10, Num (of_int oc), Num (of_int ob)],
        [Num 2, Txt ''b'', Num 5, Num 10, Num 7, NA]]"
    by (rule scenario_before)
  show "prepare_producto py_str scenario_producto ob oc =
     Inr (frame_of [''id'', ''nombre'', ''volumen'', ''precio'', ''categoria_id'', ''marca_id'']
       [[Num 1, Txt ''A'', Num 5, Num 10, Num (of_int oc), Num (of_int ob)],
        [Num 2, Txt ''B'', Num 5, Num 10, Num 7, Num (of_int ob)]])"
    by (rule scenario_result)
qed

theorem prepare_producto_scenario_witness:
  "prepare_producto render_none scenario_producto 3 8 =
     Inr (frame_of [''id'', ''nombre'', ''volumen'', ''precio'', ''categoria_id'', ''marca_id'']
       [[Num 1, Txt ''A'', Num 5, Num 10, Num 8, Num 3],
        [Num 2, Txt ''B'', Num 5, Num 10, Num 7, Num 3]])"
  using prepare_producto_scenario [of 3 8 render_none] by simp

end
